theory Spec2Isabelle
  imports Complex_Main
begin

section \<open>The fireworks particle simulator\<close>

text \<open>
  A shallow embedding of the \<^verbatim>\<open>Fireworks\<close> component: the particle buffers it keeps in
  \<^verbatim>\<open>dataRef\<close>, \<^verbatim>\<open>resetParticle\<close>, the initialisation effect and the
  \<^verbatim>\<open>useFrame\<close> callback (the specification's \<^verbatim>\<open>reset\<close>, \<^verbatim>\<open>initialize\<close> and
  \<^verbatim>\<open>advance\<close>).

  Numbers are modelled as real numbers, and arithmetic is exact. The two stores of
  \<^verbatim>\<open>resetParticle\<close> into the \<^verbatim>\<open>lifetimes\<close> and \<^verbatim>\<open>ages\<close> buffers round to single
  precision as a \<^verbatim>\<open>Float32Array\<close> store does, since the ranges of these two values
  are the subject of properties below; the rounding of the other stores and of
  JavaScript's double arithmetic is not part of the model, and neither are the values
  NaN and Infinity: whether a store would keep a value finite is read off the exact
  value it is given. \<^verbatim>\<open>Math.sin\<close>, \<^verbatim>\<open>Math.cos\<close>,
  \<^verbatim>\<open>Math.acos\<close>, \<^verbatim>\<open>Math.exp\<close>, \<^verbatim>\<open>Math.max\<close> and \<^verbatim>\<open>Math.PI\<close> are the functions
  \<^term>\<open>sin\<close>, \<^term>\<open>cos\<close>, \<^term>\<open>arccos\<close>, \<^term>\<open>exp\<close>, \<^term>\<open>max\<close> and the constant
  \<^term>\<open>pi\<close> on the reals.
\<close>

subsection \<open>Constants and data\<close>

definition FIREWORK_COUNT :: nat where
  "FIREWORK_COUNT = 100"

definition PARTICLES_PER_FIREWORK :: nat where
  "PARTICLES_PER_FIREWORK = 10"

definition TOTAL_PARTICLES :: nat where
  "TOTAL_PARTICLES = FIREWORK_COUNT * PARTICLES_PER_FIREWORK"

definition GRAVITY :: real where
  "GRAVITY = - 4"

text \<open>
  Single precision. \<open>rne\<close> rounds a real to the nearest integer, a tie to the even one.
  \<open>fround x\<close> is the single-precision number nearest to \<open>x\<close> (24 significant bits, a
  tie to the even significand), which is what a store of \<open>x\<close> into a \<^verbatim>\<open>Float32Array\<close>
  keeps; it is written for the normal range, so gradual underflow below \<open>2 ^ -126\<close>
  and overflow are not part of it. \<open>finite32 x\<close> says that such a store of \<open>x\<close> keeps
  a finite number: the largest single-precision number is \<open>2 ^ 128 - 2 ^ 104\<close>, and
  rounding to nearest gives an infinity from \<open>2 ^ 128 - 2 ^ 103\<close> on.
\<close>

definition rne :: "real \<Rightarrow> int" where
  "rne x =
     (let n = \<lfloor>x\<rfloor>; d = x - of_int n
      in if d < 1 / 2 then n
         else if 1 / 2 < d then n + 1
         else if even n then n else n + 1)"

definition fround :: "real \<Rightarrow> real" where
  "fround x =
     (if x = 0 then 0
      else (let u = 2 powr (of_int \<lfloor>log 2 \<bar>x\<bar>\<rfloor> - 23)
            in of_int (rne (x / u)) * u))"

definition finite32 :: "real \<Rightarrow> bool" where
  "finite32 x \<longleftrightarrow> \<bar>x\<bar> < 2 ^ 128 - 2 ^ 103"

text \<open>A \<^verbatim>\<open>Vector3\<close> of the three library, and its \<^verbatim>\<open>add\<close>.\<close>

datatype Vector3 = Vector3 (vx: real) (vy: real) (vz: real)

definition vadd :: "Vector3 \<Rightarrow> Vector3 \<Rightarrow> Vector3" where
  "vadd a b = Vector3 (vx a + vx b) (vy a + vy b) (vz a + vz b)"

text \<open>A \<^verbatim>\<open>Color\<close> of the three library: its r, g and b channels.\<close>

datatype Color = Color (red: real) (green: real) (blue: real)

text \<open>
  The state of one mounted component. The seven buffers are the fields of
  \<^verbatim>\<open>FireworkData\<close>; \<open>baseOrigin\<close> is the \<^verbatim>\<open>origin\<close> prop as a vector;
  \<open>opacity\<close> is \<^verbatim>\<open>material.opacity\<close>; \<open>attached\<close> says that
  \<^verbatim>\<open>geometryRef.current\<close>, \<^verbatim>\<open>materialRef.current\<close> and \<^verbatim>\<open>dataRef.current\<close> are
  all set; the two flags are \<^verbatim>\<open>needsUpdate\<close> of the position and of the colour
  attribute. \<^verbatim>\<open>Math.random\<close> is the ambient generator: \<open>rand n\<close> is the value of
  its \<open>n\<close>-th call (counted from 0) and \<open>drawn\<close> is the number of calls made so far.
\<close>

record fireworks =
  baseOrigin :: Vector3
  positions :: "real list"
  velocities :: "real list"
  origins :: "real list"
  baseColors :: "real list"
  colors :: "real list"
  ages :: "real list"
  lifetimes :: "real list"
  opacity :: real
  attached :: bool
  positionNeedsUpdate :: bool
  colorNeedsUpdate :: bool
  rand :: "nat \<Rightarrow> real"
  drawn :: nat

text \<open>One call of \<^verbatim>\<open>Math.random()\<close>: the next value, and the generator advanced.\<close>

definition random :: "fireworks \<Rightarrow> real \<times> fireworks" where
  "random s = (rand s (drawn s), s\<lparr>drawn := Suc (drawn s)\<rparr>)"

text \<open>
  Three consecutive stores \<^verbatim>\<open>a[base] = x; a[base + 1] = y; a[base + 2] = z\<close> into a
  typed array. A store beyond the end of a typed array is ignored, as \<open>xs[i := v]\<close> is.
\<close>

definition store3 :: "real list \<Rightarrow> nat \<Rightarrow> real \<Rightarrow> real \<Rightarrow> real \<Rightarrow> real list" where
  "store3 a base x y z = a[base := x, base + 1 := y, base + 2 := z]"

subsection \<open>Library functions that the component calls\<close>

text \<open>
  Modelled from the spec: \<^verbatim>\<open>MathUtils.damp\<close> belongs to the three library and is not
  part of the sources. The specification gives the damping as
  \<^verbatim>\<open>value += (target - value) * (1 - exp(-rate * deltaSeconds))\<close>.
\<close>

definition damp :: "real \<Rightarrow> real \<Rightarrow> real \<Rightarrow> real \<Rightarrow> real" where
  "damp x y lambda dt = x + (y - x) * (1 - exp (- lambda * dt))"

text \<open>
  \<^verbatim>\<open>Color.setHSL\<close> belongs to the three library as well; no property below depends on
  the colour it computes, so it is a parameter \<open>setHSL\<close> of the functions that need it.
\<close>

type_synonym hsl = "real \<Rightarrow> real \<Rightarrow> real \<Rightarrow> Color"

subsection \<open>\<^verbatim>\<open>randomColor\<close> and \<^verbatim>\<open>resetParticle\<close>\<close>

definition randomColor :: "hsl \<Rightarrow> fireworks \<Rightarrow> Color \<times> fireworks" where
  "randomColor setHSL s =
     (let (hue, s) = random s;
          (r, s) = random s;
          color = setHSL hue (0.65 + r * 0.2) 0.6
      in (color, s))"

definition resetParticle :: "hsl \<Rightarrow> nat \<Rightarrow> fireworks \<Rightarrow> fireworks" where
  "resetParticle setHSL index s =
     (let baseIndex = index * 3;
          (r, s) = random s; ox = (r - 0.5) * 1000;
          (r, s) = random s; oy = r * 200;
          (r, s) = random s; oz = (r - 0.5) * 1000;
          burstOrigin = vadd (baseOrigin s) (Vector3 ox oy oz);
          s = s\<lparr>origins := store3 (origins s) baseIndex
                 (vx burstOrigin) (vy burstOrigin) (vz burstOrigin)\<rparr>;
          (r, s) = random s; theta = r * pi * 2;
          (r, s) = random s; phi = arccos (r * 2 - 1) * 0.9;
          (r, s) = random s; speed = 1 + r * 1.4;
          s = s\<lparr>velocities := store3 (velocities s) baseIndex
                 (sin phi * cos theta * speed)
                 (cos phi * (speed * 1.2))
                 (sin phi * sin theta * speed)\<rparr>;
          (color, s) = randomColor setHSL s;
          s = s\<lparr>baseColors := store3 (baseColors s) baseIndex
                 (red color) (green color) (blue color)\<rparr>;
          s = s\<lparr>colors := store3 (colors s) baseIndex 0 0 0\<rparr>;
          s = s\<lparr>positions := store3 (positions s) baseIndex
                 (vx burstOrigin) (vy burstOrigin) (vz burstOrigin)\<rparr>;
          (r, s) = random s;
          s = s\<lparr>lifetimes := (lifetimes s)[index := fround (1.6 + r * 1.3)]\<rparr>;
          (r, s) = random s;
          s = s\<lparr>ages := (ages s)[index := fround (- r * 1.2)]\<rparr>
      in s)"

subsection \<open>Construction and the initialisation effect\<close>

text \<open>
  The buffers as \<^verbatim>\<open>new Float32Array(n)\<close> makes them (all zero), the material's
  \<^verbatim>\<open>opacity={0}\<close>, and the refs attached.
\<close>

definition mount :: "Vector3 \<Rightarrow> (nat \<Rightarrow> real) \<Rightarrow> fireworks" where
  "mount origin rnd =
     \<lparr>baseOrigin = origin,
      positions = replicate (TOTAL_PARTICLES * 3) 0,
      velocities = replicate (TOTAL_PARTICLES * 3) 0,
      origins = replicate (TOTAL_PARTICLES * 3) 0,
      baseColors = replicate (TOTAL_PARTICLES * 3) 0,
      colors = replicate (TOTAL_PARTICLES * 3) 0,
      ages = replicate TOTAL_PARTICLES 0,
      lifetimes = replicate TOTAL_PARTICLES 0,
      opacity = 0,
      attached = True,
      positionNeedsUpdate = False,
      colorNeedsUpdate = False,
      rand = rnd,
      drawn = 0\<rparr>"

text \<open>The loop of the initialisation effect, from index \<open>i\<close> on.\<close>

function initialize_from :: "hsl \<Rightarrow> nat \<Rightarrow> fireworks \<Rightarrow> fireworks" where
  "initialize_from setHSL i s =
     (if i < TOTAL_PARTICLES
      then initialize_from setHSL (i + 1) (resetParticle setHSL i s)
      else s)"
  by pat_completeness auto
termination
  by (relation "measure (\<lambda>(setHSL, i, s). TOTAL_PARTICLES - i)") auto

definition initialize :: "hsl \<Rightarrow> fireworks \<Rightarrow> fireworks" where
  "initialize setHSL s = initialize_from setHSL 0 s"

subsection \<open>The frame callback\<close>

text \<open>The body of the particle loop of the frame callback, for index \<open>i\<close>.\<close>

definition advance_particle :: "hsl \<Rightarrow> real \<Rightarrow> nat \<Rightarrow> fireworks \<Rightarrow> fireworks" where
  "advance_particle setHSL delta i s =
     (let idx3 = i * 3;
          s = s\<lparr>ages := (ages s)[i := ages s ! i + delta]\<rparr>
      in if ages s ! i < 0 then
           s\<lparr>positions := store3 (positions s) idx3
                (origins s ! idx3) (origins s ! (idx3 + 1)) (origins s ! (idx3 + 2)),
             colors := store3 (colors s) idx3 0 0 0\<rparr>
         else if ages s ! i > lifetimes s ! i
                 \<or> positions s ! (idx3 + 1) < vy (baseOrigin s) - 1.5 then
           resetParticle setHSL i s
         else
           (let age = ages s ! i;
                s = s\<lparr>positions := store3 (positions s) idx3
                       (origins s ! idx3 + velocities s ! idx3 * age)
                       (origins s ! (idx3 + 1) + velocities s ! (idx3 + 1) * age
                          + 0.5 * GRAVITY * age * age)
                       (origins s ! (idx3 + 2) + velocities s ! (idx3 + 2) * age)\<rparr>;
                fade = max 0 (1 - age / lifetimes s ! i)
            in s\<lparr>colors := store3 (colors s) idx3
                   (baseColors s ! idx3 * fade)
                   (baseColors s ! (idx3 + 1) * fade)
                   (baseColors s ! (idx3 + 2) * fade)\<rparr>))"

text \<open>The particle loop, from index \<open>i\<close> on.\<close>

function advance_from :: "hsl \<Rightarrow> real \<Rightarrow> nat \<Rightarrow> fireworks \<Rightarrow> fireworks" where
  "advance_from setHSL delta i s =
     (if i < TOTAL_PARTICLES
      then advance_from setHSL delta (i + 1) (advance_particle setHSL delta i s)
      else s)"
  by pat_completeness auto
termination
  by (relation "measure (\<lambda>(setHSL, delta, i, s). TOTAL_PARTICLES - i)") auto

text \<open>
  The callback given to \<^verbatim>\<open>useFrame\<close>, with the \<^verbatim>\<open>isActive\<close> prop of the render it
  belongs to: the specification's \<^verbatim>\<open>advance(deltaSeconds, isActive)\<close>.
\<close>

definition advance :: "hsl \<Rightarrow> real \<Rightarrow> bool \<Rightarrow> fireworks \<Rightarrow> fireworks" where
  "advance setHSL delta isActive s =
     (if \<not> attached s then s
      else if \<not> isActive then s\<lparr>opacity := damp (opacity s) 0 5 delta\<rparr>
      else
        (let s = s\<lparr>opacity := damp (opacity s) 0.85 2.5 delta\<rparr>;
             s = advance_from setHSL delta 0 s
         in s\<lparr>positionNeedsUpdate := True, colorNeedsUpdate := True\<rparr>))"

text \<open>A sequence of frames, each with its \<^verbatim>\<open>isActive\<close> and its delta.\<close>

fun frames :: "hsl \<Rightarrow> (real \<times> bool) list \<Rightarrow> fireworks \<Rightarrow> fireworks" where
  "frames setHSL [] s = s"
| "frames setHSL ((delta, isActive) # fs) s = frames setHSL fs (advance setHSL delta isActive s)"

subsection \<open>The buffers, read per particle\<close>

text \<open>
  Particle \<open>i\<close> owns the entries \<open>i * 3\<close>, \<open>i * 3 + 1\<close> and \<open>i * 3 + 2\<close> of the five
  vector buffers and entry \<open>i\<close> of \<^verbatim>\<open>ages\<close> and \<^verbatim>\<open>lifetimes\<close>.
\<close>

definition vec_at :: "real list \<Rightarrow> nat \<Rightarrow> Vector3" where
  "vec_at a i = Vector3 (a ! (i * 3)) (a ! (i * 3 + 1)) (a ! (i * 3 + 2))"

definition col_at :: "real list \<Rightarrow> nat \<Rightarrow> Color" where
  "col_at a i = Color (a ! (i * 3)) (a ! (i * 3 + 1)) (a ! (i * 3 + 2))"

record particle =
  p_position :: Vector3
  p_velocity :: Vector3
  p_origin :: Vector3
  p_baseColor :: Color
  p_color :: Color
  p_age :: real
  p_lifetime :: real

definition particle :: "fireworks \<Rightarrow> nat \<Rightarrow> particle" where
  "particle s i =
     \<lparr>p_position = vec_at (positions s) i,
      p_velocity = vec_at (velocities s) i,
      p_origin = vec_at (origins s) i,
      p_baseColor = col_at (baseColors s) i,
      p_color = col_at (colors s) i,
      p_age = ages s ! i,
      p_lifetime = lifetimes s ! i\<rparr>"

text \<open>The buffers have the lengths they are allocated with.\<close>

definition data_ok :: "fireworks \<Rightarrow> bool" where
  "data_ok s \<longleftrightarrow>
     length (positions s) = TOTAL_PARTICLES * 3 \<and>
     length (velocities s) = TOTAL_PARTICLES * 3 \<and>
     length (origins s) = TOTAL_PARTICLES * 3 \<and>
     length (baseColors s) = TOTAL_PARTICLES * 3 \<and>
     length (colors s) = TOTAL_PARTICLES * 3 \<and>
     length (ages s) = TOTAL_PARTICLES \<and>
     length (lifetimes s) = TOTAL_PARTICLES"

text \<open>
  The tests of the loop body that lead particle \<open>i\<close> to \<^verbatim>\<open>resetParticle\<close>, read on
  the state at the start of the frame.
\<close>

definition recycles :: "real \<Rightarrow> fireworks \<Rightarrow> nat \<Rightarrow> bool" where
  "recycles delta s i \<longleftrightarrow>
     \<not> ages s ! i + delta < 0 \<and>
     (ages s ! i + delta > lifetimes s ! i
      \<or> positions s ! (i * 3 + 1) < vy (baseOrigin s) - 1.5)"

text \<open>
  A vector whose components are at most \<open>b\<close> in size, and a vector and a colour whose
  components a \<^verbatim>\<open>Float32Array\<close> store keeps finite.
\<close>

definition bounded_by :: "real \<Rightarrow> Vector3 \<Rightarrow> bool" where
  "bounded_by b v \<longleftrightarrow> \<bar>vx v\<bar> \<le> b \<and> \<bar>vy v\<bar> \<le> b \<and> \<bar>vz v\<bar> \<le> b"

definition finite_vec :: "Vector3 \<Rightarrow> bool" where
  "finite_vec v \<longleftrightarrow> finite32 (vx v) \<and> finite32 (vy v) \<and> finite32 (vz v)"

definition finite_col :: "Color \<Rightarrow> bool" where
  "finite_col c \<longleftrightarrow> finite32 (red c) \<and> finite32 (green c) \<and> finite32 (blue c)"

subsection \<open>Example inputs\<close>

text \<open>The default of the \<^verbatim>\<open>origin\<close> prop.\<close>

definition default_origin :: Vector3 where
  "default_origin = Vector3 0 5 (- 14)"

text \<open>A generator whose every draw is 0, the least value \<^verbatim>\<open>Math.random()\<close> can return.\<close>

definition zero_draws :: "nat \<Rightarrow> real" where
  "zero_draws n = 0"

text \<open>A generator whose every draw is 5/8.\<close>

definition even_draws :: "nat \<Rightarrow> real" where
  "even_draws n = 5 / 8"

text \<open>
  A generator whose draws are just below 1, the double \<open>1 - 2 ^ -30\<close>, but for the
  fifth and the tenth of a reset (the polar angle and the age), which are 0.
\<close>

definition steep_draws :: "nat \<Rightarrow> real" where
  "steep_draws n = (if n = 4 \<or> n = 9 then 0 else 1 - 1 / 2 ^ 30)"

text \<open>A colour conversion to run the examples with: the grey of the given lightness.\<close>

definition grey :: hsl where
  "grey h s l = Color l l l"

text \<open>
  The component after mounting and the initialisation effect, with every draw 0: each
  particle starts at the anchor's height with age 0 and the lifetime that 1.6 rounds to.
\<close>

definition launched :: fireworks where
  "launched = initialize grey (mount default_origin zero_draws)"

text \<open>
  A freshly mounted component whose particle 0 has been reset with every draw 5/8, so
  that its age is \<open>-0.75\<close>: it waits for its ignition.
\<close>

definition delayed_example :: fireworks where
  "delayed_example = resetParticle grey 0 (mount default_origin even_draws)"

text \<open>
  The kinematic example of the specification for particle 0: origin \<open>(0, 10, 0)\<close>,
  velocity \<open>(0, 2, 0)\<close>, age 0, lifetime 2 and base colour red.
\<close>

definition kinematic_example :: fireworks where
  "kinematic_example =
     (let m = mount default_origin zero_draws
      in m\<lparr>positions := (positions m)[1 := 10],
           velocities := (velocities m)[1 := 2],
           origins := (origins m)[1 := 10],
           baseColors := (baseColors m)[0 := 1],
           lifetimes := replicate TOTAL_PARTICLES 2\<rparr>)"

section \<open>Properties\<close>

subsection \<open>Rounding to single precision\<close>

text \<open>
  Rounding is monotone and odd, and a number with 24 significant bits is its own
  rounding; the values at the ends of the ranges of the lifetime and of the age follow
  by evaluation.
\<close>

lemma rne_of_int [simp]: "rne (of_int n) = n"
  by (simp add: rne_def)

lemma rne_floor: "\<lfloor>x\<rfloor> \<le> rne x" and rne_floor_Suc: "rne x \<le> \<lfloor>x\<rfloor> + 1"
  by (simp_all add: rne_def Let_def)

lemma rne_ge:
  assumes "of_int a \<le> x"
  shows "a \<le> rne x"
proof -
  have "a \<le> \<lfloor>x\<rfloor>"
    using assms by (simp add: le_floor_iff)
  then show ?thesis
    using rne_floor [of x] by simp
qed

lemma rne_le:
  assumes "x \<le> of_int b"
  shows "rne x \<le> b"
proof (cases "x = of_int b")
  case True
  then show ?thesis by simp
next
  case False
  with assms have "x < of_int b" by simp
  then have "\<lfloor>x\<rfloor> < b" by (simp add: floor_less_iff)
  then show ?thesis
    using rne_floor_Suc [of x] by simp
qed

lemma rne_mono:
  assumes "x \<le> y"
  shows "rne x \<le> rne y"
proof (cases "\<lfloor>x\<rfloor> = \<lfloor>y\<rfloor>")
  case True
  then show ?thesis
    using assms by (auto simp add: rne_def Let_def)
next
  case False
  moreover have "\<lfloor>x\<rfloor> \<le> \<lfloor>y\<rfloor>"
    using assms by (rule floor_mono)
  ultimately have "\<lfloor>x\<rfloor> + 1 \<le> \<lfloor>y\<rfloor>" by simp
  then show ?thesis
    using rne_floor_Suc [of x] rne_floor [of y] by simp
qed


lemma binade:
  assumes "0 < x"
  defines "e \<equiv> \<lfloor>log 2 x\<rfloor>"
  shows "2 powr of_int e \<le> x" "x < 2 powr (of_int e + 1)"
proof -
  have "of_int e \<le> log 2 x"
    unfolding e_def by simp
  then have "2 powr of_int e \<le> 2 powr log 2 x"
    by simp
  then show "2 powr of_int e \<le> x"
    using assms(1) by simp
  have "log 2 x < of_int e + 1"
    unfolding e_def by linarith
  then have "2 powr log 2 x < 2 powr (of_int e + 1)"
    by simp
  then show "x < 2 powr (of_int e + 1)"
    using assms(1) by simp
qed

lemma floor_log2_eq:
  assumes "0 < x" "2 powr of_int e \<le> x" "x < 2 powr (of_int e + 1)"
  shows "\<lfloor>log 2 x\<rfloor> = e"
proof -
  have "of_int e \<le> log 2 x"
    using assms(1,2) by (simp add: le_log_iff)
  moreover have "log 2 x < of_int e + 1"
    using assms(1,3) by (simp add: log_less_iff)
  ultimately show ?thesis
    by linarith
qed

lemma fround_pos:
  assumes "0 < x"
  defines "e \<equiv> \<lfloor>log 2 x\<rfloor>"
  shows "2 powr of_int e \<le> fround x" "fround x \<le> 2 powr (of_int e + 1)"
proof -
  let ?u = "2 powr (of_int e - 23) :: real"
  have u: "0 < ?u" by simp
  have fr: "fround x = of_int (rne (x / ?u)) * ?u"
    using assms(1) by (simp add: fround_def e_def Let_def)
  have lo: "2 powr of_int e = 2 ^ 23 * ?u" and hi: "2 powr (of_int e + 1) = 2 ^ 24 * ?u"
    by (simp_all add: powr_diff powr_add)
  have "2 ^ 23 * ?u \<le> x" "x < 2 ^ 24 * ?u"
    using binade [OF assms(1)] unfolding e_def [symmetric] lo hi by simp_all
  then have "of_int (2 ^ 23) \<le> x / ?u" "x / ?u \<le> of_int (2 ^ 24)"
    using u by (simp_all add: pos_le_divide_eq pos_divide_le_eq)
  then have "2 ^ 23 \<le> rne (x / ?u)" "rne (x / ?u) \<le> 2 ^ 24"
    by (simp_all only: rne_ge rne_le)
  then have "real_of_int (2 ^ 23) \<le> of_int (rne (x / ?u))"
    "real_of_int (rne (x / ?u)) \<le> of_int (2 ^ 24)"
    by (simp_all only: of_int_le_iff)
  then have "(2 ^ 23 :: real) \<le> of_int (rne (x / ?u))" "of_int (rne (x / ?u)) \<le> (2 ^ 24 :: real)"
    by simp_all
  then show "2 powr of_int e \<le> fround x" "fround x \<le> 2 powr (of_int e + 1)"
    unfolding fr lo hi using u by (simp_all add: mult_right_mono)
qed

lemma fround_mono_pos:
  assumes "0 < x" "x \<le> y"
  shows "fround x \<le> fround y"
proof -
  let ?ex = "\<lfloor>log 2 x\<rfloor>" and ?ey = "\<lfloor>log 2 y\<rfloor>"
  have y: "0 < y" using assms by simp
  have "log 2 x \<le> log 2 y"
    using assms by simp
  then have le: "?ex \<le> ?ey"
    by (rule floor_mono)
  show ?thesis
  proof (cases "?ex = ?ey")
    case True
    let ?u = "2 powr (of_int ?ey - 23) :: real"
    have "x / ?u \<le> y / ?u"
      using assms(2) by (simp add: divide_right_mono)
    then have "rne (x / ?u) \<le> rne (y / ?u)"
      by (rule rne_mono)
    then have "of_int (rne (x / ?u)) * ?u \<le> of_int (rne (y / ?u)) * ?u"
      by (intro mult_right_mono) simp_all
    then show ?thesis
      using assms(1) y True by (simp add: fround_def Let_def)
  next
    case False
    with le have "of_int ?ex + 1 \<le> (of_int ?ey :: real)"
      by linarith
    then have "2 powr (of_int ?ex + 1) \<le> 2 powr (of_int ?ey :: real)"
      by simp
    then show ?thesis
      using fround_pos(2) [OF assms(1)] fround_pos(1) [OF y] by linarith
  qed
qed

lemma rne_minus: "rne (- x) = - rne x"
proof (cases "x = of_int \<lfloor>x\<rfloor>")
  case True
  then obtain n where "x = of_int n" ..
  then show ?thesis
    by (simp del: of_int_minus add: of_int_minus [symmetric])
next
  case False
  then have "\<lceil>x\<rceil> = \<lfloor>x\<rfloor> + 1"
    by (simp add: ceiling_altdef)
  then have fl: "\<lfloor>- x\<rfloor> = - \<lfloor>x\<rfloor> - 1"
    by (simp add: ceiling_def)
  have "x - of_int \<lfloor>x\<rfloor> < 1" "0 \<le> x - of_int \<lfloor>x\<rfloor>"
    by linarith+
  then show ?thesis
    unfolding rne_def Let_def fl by (auto simp add: algebra_simps)
qed

lemma fround_minus: "fround (- x) = - fround x"
  by (simp add: fround_def Let_def rne_minus)

lemma fround_zero [simp]: "fround 0 = 0"
  by (simp add: fround_def)

lemma fround_mono_nonneg:
  assumes "0 \<le> x" "x \<le> y"
  shows "fround x \<le> fround y"
proof (cases "x = 0")
  case True
  show ?thesis
  proof (cases "y = 0")
    case True
    with \<open>x = 0\<close> show ?thesis by simp
  next
    case False
    with assms have "0 < y" by simp
    have "(0::real) < 2 powr of_int \<lfloor>log 2 y\<rfloor>"
      by simp
    with fround_pos(1) [OF \<open>0 < y\<close>] have "0 \<le> fround y"
      by linarith
    with \<open>x = 0\<close> show ?thesis by simp
  qed
next
  case False
  with assms have "0 < x" by simp
  then show ?thesis
    using assms(2) by (rule fround_mono_pos)
qed

lemma fround_in_binade:
  assumes "0 < x" "2 ^ 23 * u \<le> x" "x < 2 ^ 24 * u" "u = 2 powr (of_int e - 23)"
  shows "fround x = of_int (rne (x / u)) * u"
proof -
  have "2 powr of_int e = 2 ^ 23 * u" "2 powr (of_int e + 1) = 2 ^ 24 * u"
    unfolding assms(4) by (simp_all add: powr_diff powr_add)
  then have "\<lfloor>log 2 x\<rfloor> = e"
    using assms(1-3) by (intro floor_log2_eq) simp_all
  then show ?thesis
    using assms(1,4) by (simp add: fround_def Let_def)
qed


lemma fround_eval:
  fixes k :: nat
  assumes "2 ^ 23 \<le> x * 2 ^ k" "x * 2 ^ k < 2 ^ 24"
  shows "fround x = of_int (rne (x * 2 ^ k)) / 2 ^ k"
proof -
  let ?u = "1 / 2 ^ k :: real"
  have u: "?u = 2 powr (of_int (23 - int k) - 23)"
    by (simp add: powr_minus powr_realpow divide_inverse)
  have "0 < x * 2 ^ k"
    using assms(1) by (rule less_le_trans [rotated]) simp
  then have x: "0 < x"
    by (simp add: zero_less_mult_iff)
  have "2 ^ 23 * ?u \<le> x" "x < 2 ^ 24 * ?u"
    using assms by (simp_all add: pos_divide_le_eq pos_less_divide_eq)
  from fround_in_binade [OF x this u] show ?thesis
    by simp
qed

lemma fround_1_6: "fround (8 / 5) = 13421773 / 2 ^ 23"
  by (subst fround_eval [where k = 23]) (simp_all add: rne_def)

lemma fround_2_9: "fround (29 / 10) = 12163482 / 2 ^ 22"
  by (subst fround_eval [where k = 22]) (simp_all add: rne_def)

lemma fround_1_2: "fround (6 / 5) = 10066330 / 2 ^ 23"
  by (subst fround_eval [where k = 23]) (simp_all add: rne_def)

lemma fround_0_75: "fround (3 / 4) = 3 / 4"
  by (subst fround_eval [where k = 24]) (simp_all add: rne_def)

lemma lifetime_store_range:
  assumes "0 \<le> r" "r < 1"
  shows "1.6 \<le> fround (1.6 + r * 1.3)" "fround (1.6 + r * 1.3) \<le> fround 2.9"
proof -
  have "fround 1.6 \<le> fround (1.6 + r * 1.3)"
    using assms(1) by (intro fround_mono_nonneg) simp_all
  then show "1.6 \<le> fround (1.6 + r * 1.3)"
    by (simp add: fround_1_6)
  show "fround (1.6 + r * 1.3) \<le> fround 2.9"
    using assms by (intro fround_mono_nonneg) simp_all
qed

lemma age_store_range:
  assumes "0 \<le> r" "r < 1"
  shows "- fround 1.2 \<le> fround (- r * 1.2)" "fround (- r * 1.2) \<le> 0"
proof -
  have eq: "fround (- r * 1.2) = - fround (r * 1.2)"
    using fround_minus [of "r * 1.2"] by simp
  have "fround 0 \<le> fround (r * 1.2)" "fround (r * 1.2) \<le> fround 1.2"
    using assms by (intro fround_mono_nonneg; simp)+
  then show "- fround 1.2 \<le> fround (- r * 1.2)" "fround (- r * 1.2) \<le> 0"
    unfolding eq by simp_all
qed

lemma fround_near_2_9: "fround (8 / 5 + (1 - 1 / 2 ^ 30) * (13 / 10)) = 12163482 / 2 ^ 22"
  by (subst fround_eval [where k = 22]) (simp_all add: rne_def)

subsection \<open>Stores and \<^verbatim>\<open>resetParticle\<close>\<close>

lemma length_store3 [simp]: "length (store3 a b x y z) = length a"
  by (simp add: store3_def)

lemma vec_at_store3_same:
  "i * 3 + 2 < length a \<Longrightarrow> vec_at (store3 a (i * 3) x y z) i = Vector3 x y z"
  by (simp add: vec_at_def store3_def)

lemma vec_at_store3_other:
  "j \<noteq> i \<Longrightarrow> vec_at (store3 a (i * 3) x y z) j = vec_at a j"
  by (simp add: vec_at_def store3_def)

lemma col_at_store3_same:
  "i * 3 + 2 < length a \<Longrightarrow> col_at (store3 a (i * 3) x y z) i = Color x y z"
  by (simp add: col_at_def store3_def)

lemma col_at_store3_other:
  "j \<noteq> i \<Longrightarrow> col_at (store3 a (i * 3) x y z) j = col_at a j"
  by (simp add: col_at_def store3_def)

lemma resetParticle_eq:
  "resetParticle setHSL index s =
     (let r = (\<lambda>k. rand s (drawn s + k));
          o3 = vadd (baseOrigin s) (Vector3 ((r 0 - 0.5) * 1000) (r 1 * 200) ((r 2 - 0.5) * 1000));
          theta = r 3 * pi * 2; phi = arccos (r 4 * 2 - 1) * 0.9; speed = 1 + r 5 * 1.4;
          color = setHSL (r 6) (0.65 + r 7 * 0.2) 0.6
      in s\<lparr>origins := store3 (origins s) (index * 3) (vx o3) (vy o3) (vz o3),
            velocities := store3 (velocities s) (index * 3)
                 (sin phi * cos theta * speed) (cos phi * (speed * 1.2)) (sin phi * sin theta * speed),
            baseColors := store3 (baseColors s) (index * 3) (red color) (green color) (blue color),
            colors := store3 (colors s) (index * 3) 0 0 0,
            positions := store3 (positions s) (index * 3) (vx o3) (vy o3) (vz o3),
            lifetimes := (lifetimes s)[index := fround (1.6 + r 8 * 1.3)],
            ages := (ages s)[index := fround (- r 9 * 1.2)],
            drawn := drawn s + 10\<rparr>)"
  by (simp add: resetParticle_def randomColor_def random_def Let_def split_def eval_nat_numeral)

lemma resetParticle_data_ok: "data_ok s \<Longrightarrow> data_ok (resetParticle h i s)"
  by (simp add: resetParticle_eq data_ok_def Let_def)

lemma resetParticle_frame:
  "baseOrigin (resetParticle h i s) = baseOrigin s"
  "rand (resetParticle h i s) = rand s"
  "attached (resetParticle h i s) = attached s"
  "opacity (resetParticle h i s) = opacity s"
  "drawn (resetParticle h i s) = drawn s + 10"
  by (simp_all add: resetParticle_eq Let_def)

lemma resetParticle_other:
  "j \<noteq> i \<Longrightarrow> particle (resetParticle h i s) j = particle s j"
  by (simp add: resetParticle_eq Let_def particle_def vec_at_store3_other col_at_store3_other)

lemma resetParticle_cong:
  assumes "i < TOTAL_PARTICLES" "data_ok s" "data_ok t"
    and "baseOrigin s = baseOrigin t" "rand s = rand t" "drawn s = drawn t"
  shows "particle (resetParticle h i s) i = particle (resetParticle h i t) i"
  using assms
  by (simp add: resetParticle_eq Let_def particle_def vec_at_store3_same col_at_store3_same data_ok_def)

subsection \<open>The body of the particle loop\<close>

lemma advance_particle_data_ok: "data_ok s \<Longrightarrow> data_ok (advance_particle h d i s)"
  by (simp add: advance_particle_def Let_def data_ok_def resetParticle_eq)

lemma advance_particle_frame:
  "baseOrigin (advance_particle h d i s) = baseOrigin s"
  "rand (advance_particle h d i s) = rand s"
  "attached (advance_particle h d i s) = attached s"
  "opacity (advance_particle h d i s) = opacity s"
  "drawn s \<le> drawn (advance_particle h d i s)"
  by (simp_all add: advance_particle_def Let_def resetParticle_frame)

lemma advance_particle_other:
  "j \<noteq> i \<Longrightarrow> particle (advance_particle h d i s) j = particle s j"
  by (simp add: advance_particle_def Let_def resetParticle_other)
     (simp add: particle_def vec_at_store3_other col_at_store3_other)

lemma advance_particle_cong:
  assumes "i < TOTAL_PARTICLES" "data_ok s" "data_ok t"
    and "particle s i = particle t i"
    and "baseOrigin s = baseOrigin t" "rand s = rand t" "drawn s = drawn t"
  shows "particle (advance_particle h d i s) i = particle (advance_particle h d i t) i"
  using assms
  by (simp add: advance_particle_def Let_def particle_def vec_at_store3_same col_at_store3_same data_ok_def
        resetParticle_eq) (simp add: vec_at_def col_at_def)

subsection \<open>The particle loop\<close>

text \<open>
  Iteration \<open>i\<close> of the loop touches the entries of particle \<open>i\<close> only, and what it
  stores there depends on that particle, the anchor and the generator alone. So after the
  loop each particle is as the loop body leaves it, run on the state at the start of the
  frame with the generator advanced by the draws of the iterations before.
\<close>

declare advance_from.simps [simp del]

declare initialize_from.simps [simp del]

lemma advance_from_data_ok: "data_ok s \<Longrightarrow> data_ok (advance_from h d i s)"
proof (induction h d i s rule: advance_from.induct)
  case (1 h d i s)
  show ?case
  proof (cases "i < TOTAL_PARTICLES")
    case True
    with 1 show ?thesis
      by (subst advance_from.simps) (simp add: advance_particle_data_ok)
  next
    case False
    with 1 show ?thesis
      by (subst advance_from.simps) simp
  qed
qed

lemma advance_from_frame:
  "baseOrigin (advance_from h d i s) = baseOrigin s \<and>
   rand (advance_from h d i s) = rand s \<and>
   attached (advance_from h d i s) = attached s \<and>
   opacity (advance_from h d i s) = opacity s \<and>
   drawn s \<le> drawn (advance_from h d i s)"
proof (induction h d i s rule: advance_from.induct)
  case (1 h d i s)
  show ?case
  proof (cases "i < TOTAL_PARTICLES")
    case True
    have unfold: "advance_from h d i s = advance_from h d (i + 1) (advance_particle h d i s)"
      using True by (subst advance_from.simps) simp
    have "drawn s \<le> drawn (advance_particle h d i s)"
      by (rule advance_particle_frame)
    with True 1 show ?thesis
      unfolding unfold by (simp add: advance_particle_frame(1-4))
  next
    case False
    then have "advance_from h d i s = s"
      by (subst advance_from.simps) simp
    then show ?thesis by simp
  qed
qed

lemma advance_from_below:
  "k < i \<Longrightarrow> particle (advance_from h d i s) k = particle s k"
proof (induction h d i s rule: advance_from.induct)
  case (1 h d i s)
  show ?case
  proof (cases "i < TOTAL_PARTICLES")
    case True
    with 1 have "particle (advance_from h d (i + 1) (advance_particle h d i s)) k
        = particle (advance_particle h d i s) k"
      by simp
    also have "\<dots> = particle s k"
      using "1.prems" by (simp add: advance_particle_other)
    finally show ?thesis
      using True by (subst advance_from.simps) simp
  next
    case False
    then show ?thesis
      by (subst advance_from.simps) simp
  qed
qed

lemma advance_from_at:
  "i \<le> k \<Longrightarrow> k < TOTAL_PARTICLES \<Longrightarrow> data_ok s \<Longrightarrow>
   \<exists>n\<ge>drawn s. particle (advance_from h d i s) k
        = particle (advance_particle h d k (s\<lparr>drawn := n\<rparr>)) k"
proof (induction h d i s rule: advance_from.induct)
  case (1 h d i s)
  from "1.prems" have lt: "i < TOTAL_PARTICLES" by simp
  let ?s1 = "advance_particle h d i s"
  have unfold: "advance_from h d i s = advance_from h d (i + 1) ?s1"
    using lt by (subst advance_from.simps) simp
  show ?case
  proof (cases "i = k")
    case True
    have "particle (advance_from h d i s) k = particle (advance_particle h d k s) k"
      unfolding unfold using True by (simp add: advance_from_below)
    then have "particle (advance_from h d i s) k
        = particle (advance_particle h d k (s\<lparr>drawn := drawn s\<rparr>)) k"
      by simp
    then show ?thesis by blast
  next
    case False
    with "1.prems" have "i + 1 \<le> k" by simp
    moreover have ok1: "data_ok ?s1"
      using "1.prems" by (simp add: advance_particle_data_ok)
    ultimately obtain n where n: "drawn ?s1 \<le> n"
      and eq: "particle (advance_from h d (i + 1) ?s1) k
        = particle (advance_particle h d k (?s1\<lparr>drawn := n\<rparr>)) k"
      using "1.IH" [OF lt] "1.prems" by blast
    have "particle (advance_particle h d k (?s1\<lparr>drawn := n\<rparr>)) k
        = particle (advance_particle h d k (s\<lparr>drawn := n\<rparr>)) k"
    proof (rule advance_particle_cong)
      show "k < TOTAL_PARTICLES" by fact
      show "data_ok (?s1\<lparr>drawn := n\<rparr>)" using ok1 by (simp add: data_ok_def)
      show "data_ok (s\<lparr>drawn := n\<rparr>)" using "1.prems" by (simp add: data_ok_def)
      have "particle ?s1 k = particle s k"
        using False by (simp add: advance_particle_other)
      then show "particle (?s1\<lparr>drawn := n\<rparr>) k = particle (s\<lparr>drawn := n\<rparr>) k"
        by (simp add: particle_def)
    qed (simp_all add: advance_particle_frame)
    moreover have "drawn s \<le> n"
      using n advance_particle_frame(5) [of s h d i] by simp
    ultimately show ?thesis
      unfolding unfold using eq by auto
  qed
qed

lemma advance_active_particle:
  assumes "attached s" "data_ok s" "k < TOTAL_PARTICLES"
  shows "\<exists>n\<ge>drawn s. particle (advance h d True s) k
        = particle (advance_particle h d k (s\<lparr>drawn := n\<rparr>)) k"
proof -
  let ?s1 = "s\<lparr>opacity := damp (opacity s) 0.85 2.5 d\<rparr>"
  have ok1: "data_ok ?s1"
    using assms(2) by (simp add: data_ok_def)
  then obtain n where n: "drawn ?s1 \<le> n"
    and eq: "particle (advance_from h d 0 ?s1) k
        = particle (advance_particle h d k (?s1\<lparr>drawn := n\<rparr>)) k"
    using advance_from_at [of 0 k ?s1 h d] assms(3) by blast
  have "particle (advance_particle h d k (?s1\<lparr>drawn := n\<rparr>)) k
      = particle (advance_particle h d k (s\<lparr>drawn := n\<rparr>)) k"
    using assms(2,3)
    by (intro advance_particle_cong) (simp_all add: data_ok_def particle_def)
  moreover have "particle (advance h d True s) k = particle (advance_from h d 0 ?s1) k"
    using assms(1) by (simp add: advance_def Let_def particle_def)
  ultimately show ?thesis
    using n eq by auto
qed

lemma advance_particle_hold:
  assumes "k < TOTAL_PARTICLES" "data_ok s" "ages s ! k + d < 0"
  shows "particle (advance_particle h d k s) k
      = (particle s k)\<lparr>p_position := p_origin (particle s k),
                        p_color := Color 0 0 0,
                        p_age := ages s ! k + d\<rparr>"
  using assms
  by (simp add: advance_particle_def Let_def particle_def vec_at_store3_same col_at_store3_same data_ok_def)
     (simp add: vec_at_def col_at_def)

lemma advance_particle_recycle:
  assumes "k < TOTAL_PARTICLES" "data_ok s" "\<not> ages s ! k + d < 0"
    and "lifetimes s ! k < ages s ! k + d \<or> positions s ! (k * 3 + 1) < vy (baseOrigin s) - 1.5"
  shows "particle (advance_particle h d k s) k = particle (resetParticle h k s) k"
proof -
  let ?s1 = "s\<lparr>ages := (ages s)[k := ages s ! k + d]\<rparr>"
  have "advance_particle h d k s = resetParticle h k ?s1"
    using assms by (auto simp add: advance_particle_def Let_def data_ok_def)
  moreover have "particle (resetParticle h k ?s1) k = particle (resetParticle h k s) k"
    using assms(1,2) by (intro resetParticle_cong) (simp_all add: data_ok_def)
  ultimately show ?thesis by simp
qed

lemma advance_particle_integrate:
  assumes "k < TOTAL_PARTICLES" "data_ok s" "\<not> ages s ! k + d < 0"
    and "\<not> lifetimes s ! k < ages s ! k + d"
    and "\<not> positions s ! (k * 3 + 1) < vy (baseOrigin s) - 1.5"
  shows "particle (advance_particle h d k s) k
      = (let p = particle s k; age = p_age p + d
         in p\<lparr>p_position := Vector3
                 (vx (p_origin p) + vx (p_velocity p) * age)
                 (vy (p_origin p) + vy (p_velocity p) * age + 0.5 * GRAVITY * age * age)
                 (vz (p_origin p) + vz (p_velocity p) * age),
               p_color := Color
                 (red (p_baseColor p) * max 0 (1 - age / p_lifetime p))
                 (green (p_baseColor p) * max 0 (1 - age / p_lifetime p))
                 (blue (p_baseColor p) * max 0 (1 - age / p_lifetime p)),
               p_age := age\<rparr>)"
  using assms
  by (simp add: advance_particle_def Let_def particle_def vec_at_store3_same col_at_store3_same data_ok_def)
     (simp add: vec_at_def col_at_def)

subsection \<open>The initialisation loop\<close>

lemma initialize_from_data_ok: "data_ok s \<Longrightarrow> data_ok (initialize_from h i s)"
proof (induction h i s rule: initialize_from.induct)
  case (1 h i s)
  then show ?case
    by (subst initialize_from.simps) (simp add: resetParticle_data_ok)
qed

lemma initialize_from_frame:
  "baseOrigin (initialize_from h i s) = baseOrigin s \<and>
   rand (initialize_from h i s) = rand s \<and>
   attached (initialize_from h i s) = attached s \<and>
   opacity (initialize_from h i s) = opacity s \<and>
   drawn (initialize_from h i s) = drawn s + 10 * (TOTAL_PARTICLES - i)"
proof (induction h i s rule: initialize_from.induct)
  case (1 h i s)
  show ?case
  proof (cases "i < TOTAL_PARTICLES")
    case True
    then have unfold: "initialize_from h i s = initialize_from h (i + 1) (resetParticle h i s)"
      by (subst initialize_from.simps) simp
    have "10 * (TOTAL_PARTICLES - i) = 10 + 10 * (TOTAL_PARTICLES - (i + 1))"
      using True by simp
    with True 1 show ?thesis
      unfolding unfold by (simp add: resetParticle_frame)
  next
    case False
    then have "initialize_from h i s = s"
      by (subst initialize_from.simps) simp
    with False show ?thesis by simp
  qed
qed

lemma initialize_from_below:
  "k < i \<Longrightarrow> particle (initialize_from h i s) k = particle s k"
proof (induction h i s rule: initialize_from.induct)
  case (1 h i s)
  show ?case
  proof (cases "i < TOTAL_PARTICLES")
    case True
    with 1 have "particle (initialize_from h (i + 1) (resetParticle h i s)) k
        = particle (resetParticle h i s) k"
      by simp
    also have "\<dots> = particle s k"
      using "1.prems" by (simp add: resetParticle_other)
    finally show ?thesis
      using True by (subst initialize_from.simps) simp
  next
    case False
    then show ?thesis
      by (subst initialize_from.simps) simp
  qed
qed

lemma initialize_from_at:
  "i \<le> k \<Longrightarrow> k < TOTAL_PARTICLES \<Longrightarrow> data_ok s \<Longrightarrow>
   particle (initialize_from h i s) k
     = particle (resetParticle h k (s\<lparr>drawn := drawn s + 10 * (k - i)\<rparr>)) k"
proof (induction h i s rule: initialize_from.induct)
  case (1 h i s)
  from "1.prems" have lt: "i < TOTAL_PARTICLES" by simp
  let ?s1 = "resetParticle h i s"
  have unfold: "initialize_from h i s = initialize_from h (i + 1) ?s1"
    using lt by (subst initialize_from.simps) simp
  show ?case
  proof (cases "i = k")
    case True
    then show ?thesis
      unfolding unfold by (simp add: initialize_from_below)
  next
    case False
    with "1.prems" have le: "i + 1 \<le> k" by simp
    have ok1: "data_ok ?s1"
      using "1.prems" by (simp add: resetParticle_data_ok)
    have "particle (initialize_from h (i + 1) ?s1) k
        = particle (resetParticle h k (?s1\<lparr>drawn := drawn ?s1 + 10 * (k - (i + 1))\<rparr>)) k"
      using "1.IH" [OF lt le "1.prems"(2) ok1] .
    also have "\<dots> = particle (resetParticle h k (s\<lparr>drawn := drawn s + 10 * (k - i)\<rparr>)) k"
    proof (rule resetParticle_cong)
      show "k < TOTAL_PARTICLES" by fact
      show "data_ok (?s1\<lparr>drawn := drawn ?s1 + 10 * (k - (i + 1))\<rparr>)"
        using ok1 by (simp add: data_ok_def)
      show "data_ok (s\<lparr>drawn := drawn s + 10 * (k - i)\<rparr>)"
        using "1.prems" by (simp add: data_ok_def)
      show "drawn (?s1\<lparr>drawn := drawn ?s1 + 10 * (k - (i + 1))\<rparr>)
          = drawn (s\<lparr>drawn := drawn s + 10 * (k - i)\<rparr>)"
        using le by (simp add: resetParticle_frame)
    qed (simp_all add: resetParticle_frame)
    finally show ?thesis
      unfolding unfold .
  qed
qed

lemma initialize_particle:
  "k < TOTAL_PARTICLES \<Longrightarrow> data_ok s \<Longrightarrow>
   particle (initialize h s) k
     = particle (resetParticle h k (s\<lparr>drawn := drawn s + 10 * k\<rparr>)) k"
  using initialize_from_at [of 0 k s h] by (simp add: initialize_def)

subsection \<open>The draws of a frame\<close>

lemma advance_particle_drawn:
  "i < TOTAL_PARTICLES \<Longrightarrow> data_ok s \<Longrightarrow>
   drawn (advance_particle h d i s) = drawn s + (if recycles d s i then 10 else 0)"
  by (auto simp add: advance_particle_def Let_def recycles_def resetParticle_frame data_ok_def)

lemma recycles_cong:
  "particle s k = particle t k \<Longrightarrow> baseOrigin s = baseOrigin t \<Longrightarrow>
   recycles d s k = recycles d t k"
  by (simp add: recycles_def particle_def vec_at_def col_at_def)

lemma advance_from_drawn:
  "data_ok s \<Longrightarrow>
   drawn (advance_from h d i s)
     = drawn s + 10 * card {k. i \<le> k \<and> k < TOTAL_PARTICLES \<and> recycles d s k}"
proof (induction h d i s rule: advance_from.induct)
  case (1 h d i s)
  show ?case
  proof (cases "i < TOTAL_PARTICLES")
    case True
    let ?s1 = "advance_particle h d i s"
    let ?R = "\<lambda>j s. {k. j \<le> k \<and> k < TOTAL_PARTICLES \<and> recycles d s k}"
    have unfold: "advance_from h d i s = advance_from h d (i + 1) ?s1"
      using True by (subst advance_from.simps) simp
    have ok1: "data_ok ?s1"
      using "1.prems" by (simp add: advance_particle_data_ok)
    have same: "?R (i + 1) ?s1 = ?R (i + 1) s"
    proof -
      have "recycles d ?s1 k = recycles d s k" if "i + 1 \<le> k" for k
        using that by (intro recycles_cong) (simp_all add: advance_particle_other advance_particle_frame)
      then show ?thesis by auto
    qed
    have fin: "finite (?R (i + 1) s)" by simp
    have split: "?R i s = (if recycles d s i then insert i (?R (i + 1) s) else ?R (i + 1) s)"
      using True by (auto simp: le_less Suc_le_eq)
    have notin: "i \<notin> ?R (i + 1) s" by simp
    have "card (?R i s) = (if recycles d s i then 1 else 0) + card (?R (i + 1) s)"
      unfolding split using fin notin by (simp del: mem_Collect_eq)
    moreover have "drawn (advance_from h d (i + 1) ?s1) = drawn ?s1 + 10 * card (?R (i + 1) ?s1)"
      using "1.IH" [OF True ok1] .
    ultimately show ?thesis
      unfolding unfold using True "1.prems" same by (simp add: advance_particle_drawn)
  next
    case False
    then have "advance_from h d i s = s"
      by (subst advance_from.simps) simp
    moreover have "{k. i \<le> k \<and> k < TOTAL_PARTICLES \<and> recycles d s k} = {}"
      using False by auto
    ultimately show ?thesis by simp
  qed
qed

lemma advance_active_drawn:
  assumes "attached s" "data_ok s"
  shows "drawn (advance h d True s)
     = drawn s + 10 * card {k. k < TOTAL_PARTICLES \<and> recycles d s k}"
proof -
  let ?s1 = "s\<lparr>opacity := damp (opacity s) 0.85 2.5 d\<rparr>"
  have "data_ok ?s1"
    using assms(2) by (simp add: data_ok_def)
  then have "drawn (advance_from h d 0 ?s1)
      = drawn ?s1 + 10 * card {k. 0 \<le> k \<and> k < TOTAL_PARTICLES \<and> recycles d ?s1 k}"
    by (rule advance_from_drawn)
  moreover have "recycles d ?s1 k = recycles d s k" for k
    by (simp add: recycles_def)
  ultimately show ?thesis
    using assms(1) by (simp add: advance_def Let_def)
qed

subsection \<open>Damping of the opacity\<close>

text \<open>
  The same value written as a linear interpolation from \<open>x\<close> to \<open>y\<close>, the form
  \<^verbatim>\<open>lerp(x, y, 1 - Math.exp(-lambda * dt))\<close> with
  \<^verbatim>\<open>lerp(x, y, t) = (1 - t) * x + t * y\<close>.
\<close>

lemma damp_lerp:
  "damp x y lambda dt
     = (let t = 1 - exp (- lambda * dt) in (1 - t) * x + t * y)"
  by (simp add: damp_def Let_def algebra_simps)

lemma damp_closed: "damp x y l dt = y + (x - y) * exp (- l * dt)"
  by (simp add: damp_def algebra_simps)

lemma damp_between:
  assumes "0 \<le> l" "0 \<le> dt"
  shows "min x y \<le> damp x y l dt \<and> damp x y l dt \<le> max x y"
proof -
  let ?e = "exp (- l * dt)"
  have e: "0 < ?e" "?e \<le> 1"
    using assms by (simp_all add: mult_nonneg_nonneg)
  have eq: "damp x y l dt = ?e * x + (1 - ?e) * y"
    by (simp add: damp_def algebra_simps)
  show ?thesis
  proof (cases "x \<le> y")
    case True
    have "?e * x + (1 - ?e) * x \<le> ?e * x + (1 - ?e) * y"
      using True e by (intro add_left_mono mult_left_mono) simp_all
    moreover have "?e * x + (1 - ?e) * y \<le> ?e * y + (1 - ?e) * y"
      using True e by (intro add_right_mono mult_left_mono) simp_all
    ultimately show ?thesis
      using True unfolding eq by (simp add: algebra_simps)
  next
    case False
    have "?e * y + (1 - ?e) * y \<le> ?e * x + (1 - ?e) * y"
      using False e by (intro add_right_mono mult_left_mono) simp_all
    moreover have "?e * x + (1 - ?e) * y \<le> ?e * x + (1 - ?e) * x"
      using False e by (intro add_left_mono mult_left_mono) simp_all
    ultimately show ?thesis
      using False unfolding eq by (simp add: algebra_simps)
  qed
qed

lemma advance_opacity:
  "opacity (advance h d a s) =
     (if \<not> attached s then opacity s
      else if a then damp (opacity s) 0.85 2.5 d else damp (opacity s) 0 5 d)"
  by (simp add: advance_def Let_def advance_from_frame)

lemma advance_inactive_eq:
  "attached s \<Longrightarrow> advance h d False s = s\<lparr>opacity := opacity s * exp (- 5 * d)\<rparr>"
  by (simp add: advance_def damp_closed)

lemma frames_inactive_eq:
  "attached s \<Longrightarrow>
   frames h (map (\<lambda>d. (d, False)) ds) s = s\<lparr>opacity := opacity s * exp (- 5 * sum_list ds)\<rparr>"
proof (induction ds arbitrary: s)
  case Nil
  then show ?case by simp
next
  case (Cons d ds)
  let ?s1 = "s\<lparr>opacity := opacity s * exp (- 5 * d)\<rparr>"
  have "frames h (map (\<lambda>d. (d, False)) (d # ds)) s = frames h (map (\<lambda>d. (d, False)) ds) ?s1"
    using Cons.prems by (simp add: advance_inactive_eq)
  also have "\<dots> = ?s1\<lparr>opacity := opacity ?s1 * exp (- 5 * sum_list ds)\<rparr>"
    using Cons.prems by (intro Cons.IH) simp
  also have "\<dots> = s\<lparr>opacity := opacity s * exp (- 5 * sum_list (d # ds))\<rparr>"
    by (simp add: exp_add [symmetric] algebra_simps)
  finally show ?case .
qed

lemma frames_opacity_range:
  assumes "0 \<le> opacity s" "opacity s \<le> 0.85" "\<forall>f\<in>set fs. 0 \<le> fst f"
  shows "0 \<le> opacity (frames h fs s) \<and> opacity (frames h fs s) \<le> 0.85"
  using assms
proof (induction fs arbitrary: s)
  case Nil
  then show ?case by simp
next
  case (Cons f fs)
  obtain d a where f: "f = (d, a)" by (cases f)
  with Cons.prems have d: "0 \<le> d" by simp
  let ?s1 = "advance h d a s"
  have "0 \<le> opacity ?s1 \<and> opacity ?s1 \<le> 0.85"
    using damp_between [of "2.5" d "opacity s" "0.85"] damp_between [of 5 d "opacity s" 0]
      d Cons.prems(1,2)
    by (simp add: advance_opacity)
  then show ?case
    using Cons.IH [of ?s1] Cons.prems(3) f by simp
qed

text \<open>
  Claim C8. The opacity that a frame stores is the damping of the specification,
  \<^verbatim>\<open>value += (target - value) * (1 - exp(-rate * deltaSeconds))\<close>, with target 0 and
  rate 5 when \<^verbatim>\<open>isActive\<close> is false, and target 0.85 and rate 2.5 when it is true.
\<close>

theorem advance_visibility_damping:
  assumes "attached s"
  shows "opacity (advance setHSL delta isActive s)
     = opacity s + ((if isActive then 0.85 else 0) - opacity s)
         * (1 - exp (- (if isActive then 2.5 else 5) * delta))"
  using assms by (simp add: advance_opacity damp_def)

theorem advance_visibility_damping_witness:
  "attached (mount default_origin zero_draws) \<and>
   opacity (advance grey (1 / 10) True (mount default_origin zero_draws))
     = 0.85 * (1 - exp (- (1 / 4))) \<and>
   opacity (advance grey (1 / 10) False (mount default_origin zero_draws)) = 0"
  using advance_visibility_damping [of "mount default_origin zero_draws" grey "1 / 10" True]
    advance_visibility_damping [of "mount default_origin zero_draws" grey "1 / 10" False]
  by (simp add: mount_def)

text \<open>
  Claim C6. A frame with \<^verbatim>\<open>isActive\<close> false and a delta that is not negative changes
  nothing but the opacity: every buffer (positions, colours, ages, origins, velocities,
  base colours, lifetimes) is as before. The opacity is damped toward 0 and so does not
  grow in absolute value; after any sequence of such frames it is the opacity at the
  start times \<open>exp (- 5 * t)\<close> for the total time \<open>t\<close>, and where it starts non-negative
  each further frame leaves it non-negative and no larger.
\<close>

theorem advance_inactive_frame:
  assumes "attached s" "0 \<le> delta" "\<forall>d\<in>set ds. 0 \<le> d"
  shows "advance setHSL delta False s = s\<lparr>opacity := damp (opacity s) 0 5 delta\<rparr> \<and>
     \<bar>opacity (advance setHSL delta False s)\<bar> \<le> \<bar>opacity s\<bar> \<and>
     frames setHSL (map (\<lambda>d. (d, False)) ds) s
       = s\<lparr>opacity := opacity s * exp (- 5 * sum_list ds)\<rparr> \<and>
     (0 \<le> opacity s \<longrightarrow>
        0 \<le> opacity (frames setHSL (map (\<lambda>d. (d, False)) (ds @ [delta])) s) \<and>
        opacity (frames setHSL (map (\<lambda>d. (d, False)) (ds @ [delta])) s)
          \<le> opacity (frames setHSL (map (\<lambda>d. (d, False)) ds) s))"
proof -
  let ?run = "\<lambda>ds. frames setHSL (map (\<lambda>d. (d, False)) ds) s"
  have step: "advance setHSL delta False s = s\<lparr>opacity := damp (opacity s) 0 5 delta\<rparr>"
    using assms(1) by (simp add: advance_def)
  have e: "0 < exp (- 5 * delta)" "exp (- 5 * delta) \<le> 1"
    using assms(2) by simp_all
  have "\<bar>opacity (advance setHSL delta False s)\<bar> = \<bar>opacity s\<bar> * exp (- 5 * delta)"
    using assms(1) by (simp add: advance_inactive_eq abs_mult)
  also have "\<dots> \<le> \<bar>opacity s\<bar> * 1"
    using e by (intro mult_left_mono) simp_all
  finally have shrink: "\<bar>opacity (advance setHSL delta False s)\<bar> \<le> \<bar>opacity s\<bar>"
    by simp
  have run: "?run ds = s\<lparr>opacity := opacity s * exp (- 5 * sum_list ds)\<rparr>" for ds
    using assms(1) by (rule frames_inactive_eq)
  have mono: "0 \<le> opacity (?run (ds @ [delta])) \<and> opacity (?run (ds @ [delta])) \<le> opacity (?run ds)"
    if "0 \<le> opacity s"
  proof -
    have "opacity (?run (ds @ [delta])) = opacity (?run ds) * exp (- 5 * delta)"
      unfolding run by (simp add: exp_add [symmetric] algebra_simps)
    moreover have "0 \<le> opacity (?run ds)"
      unfolding run using that by simp
    moreover from this have "opacity (?run ds) * exp (- 5 * delta) \<le> opacity (?run ds) * 1"
      using e by (intro mult_left_mono) simp_all
    ultimately show ?thesis by simp
  qed
  show ?thesis
    using step shrink run [of ds] mono by blast
qed

theorem advance_inactive_frame_witness:
  "attached (mount default_origin zero_draws\<lparr>opacity := 1 / 2\<rparr>) \<and>
   advance grey (1 / 60) False (mount default_origin zero_draws\<lparr>opacity := 1 / 2\<rparr>)
     = mount default_origin zero_draws\<lparr>opacity := damp (1 / 2) 0 5 (1 / 60)\<rparr> \<and>
   \<bar>opacity (advance grey (1 / 60) False (mount default_origin zero_draws\<lparr>opacity := 1 / 2\<rparr>))\<bar>
     \<le> 1 / 2"
proof -
  let ?s = "mount default_origin zero_draws\<lparr>opacity := 1 / 2\<rparr>"
  have a: "attached ?s"
    by (simp add: mount_def)
  have b: "\<forall>d\<in>set [1 / 60, 1 / 30]. (0::real) \<le> d"
    by simp
  have c: "(0::real) \<le> 1 / 60"
    by simp
  have o: "opacity ?s = 1 / 2"
    by simp
  from advance_inactive_frame [OF a c b, of grey]
  have "advance grey (1 / 60) False ?s = ?s\<lparr>opacity := damp (opacity ?s) 0 5 (1 / 60)\<rparr>"
    and "\<bar>opacity (advance grey (1 / 60) False ?s)\<bar> \<le> \<bar>opacity ?s\<bar>"
    by blast+
  then show ?thesis
    unfolding o using a by simp
qed

text \<open>
  Claim C7. From an opacity within \<open>[0, 0.85]\<close> (it is 0 when the component mounts),
  after every sequence of frames with any \<^verbatim>\<open>isActive\<close> values and deltas that are not
  negative the opacity is within \<open>[0, 0.85]\<close>, and one more such frame leaves it
  between its value before and the target of that frame: it does not overshoot.
\<close>

theorem visibility_range:
  assumes "0 \<le> opacity s" "opacity s \<le> 0.85" "\<forall>f\<in>set fs. 0 \<le> fst f"
  shows "0 \<le> opacity (frames setHSL fs s) \<and> opacity (frames setHSL fs s) \<le> 0.85 \<and>
     (\<forall>delta isActive. 0 \<le> delta \<longrightarrow>
        (let t = frames setHSL fs s; target = (if isActive then 0.85 else 0)
         in min (opacity t) target \<le> opacity (advance setHSL delta isActive t) \<and>
            opacity (advance setHSL delta isActive t) \<le> max (opacity t) target))"
proof -
  have "min (opacity t) (if a then 0.85 else 0) \<le> opacity (advance setHSL d a t) \<and>
      opacity (advance setHSL d a t) \<le> max (opacity t) (if a then 0.85 else 0)"
    if "0 \<le> d" for d a t
    using damp_between [of "2.5" d "opacity t" "0.85"] damp_between [of 5 d "opacity t" 0] that
    by (simp add: advance_opacity)
  then show ?thesis
    using frames_opacity_range [OF assms] by (simp add: Let_def)
qed

theorem visibility_range_witness:
  "opacity (mount default_origin zero_draws) = 0 \<and>
   0 \<le> opacity (frames grey [(2 / 125, True), (2 / 125, False)] (mount default_origin zero_draws)) \<and>
   opacity (frames grey [(2 / 125, True), (2 / 125, False)] (mount default_origin zero_draws))
     \<le> 0.85"
  using visibility_range
    [of "mount default_origin zero_draws" "[(2 / 125, True), (2 / 125, False)]" grey]
  by (simp add: mount_def)

subsection \<open>What \<^verbatim>\<open>resetParticle\<close> stores\<close>

lemma resetParticle_particle:
  assumes "i < TOTAL_PARTICLES" "data_ok s"
  shows "particle (resetParticle h i s) i =
     (let r = (\<lambda>k. rand s (drawn s + k));
          o3 = vadd (baseOrigin s) (Vector3 ((r 0 - 0.5) * 1000) (r 1 * 200) ((r 2 - 0.5) * 1000));
          theta = r 3 * pi * 2; phi = arccos (r 4 * 2 - 1) * 0.9; speed = 1 + r 5 * 1.4
      in \<lparr>p_position = o3,
          p_velocity = Vector3 (sin phi * cos theta * speed) (cos phi * (speed * 1.2))
                         (sin phi * sin theta * speed),
          p_origin = o3,
          p_baseColor = h (r 6) (0.65 + r 7 * 0.2) 0.6,
          p_color = Color 0 0 0,
          p_age = fround (- r 9 * 1.2),
          p_lifetime = fround (1.6 + r 8 * 1.3)\<rparr>)"
  using assms
  by (simp add: resetParticle_eq Let_def particle_def vec_at_store3_same col_at_store3_same
      data_ok_def)

lemma cos_neg_between:
  assumes "pi / 2 < x" "x < 3 * pi / 2"
  shows "cos x < 0"
proof -
  have "0 < cos (x - pi)"
    using assms by (intro cos_gt_zero_pi) simp_all
  then show ?thesis by (simp add: cos_diff)
qed

lemma arccos_half_neg: "arccos (- (1 / 2)) = 2 * pi / 3"
proof -
  have "arccos (1 / 2) = pi / 3"
    using arccos_cos [of "pi / 3"] by (simp add: cos_60)
  then show ?thesis
    using arccos_minus [of "1 / 2"] by simp
qed

lemma phi_range:
  assumes "0 \<le> u" "u < 1"
  shows "0 \<le> arccos (u * 2 - 1) * 0.9" "arccos (u * 2 - 1) * 0.9 \<le> 0.9 * pi"
  using assms arccos_lbound [of "u * 2 - 1"] arccos_ubound [of "u * 2 - 1"] by simp_all

lemma phi_downward:
  assumes "0 \<le> u" "u \<le> 1 / 4"
  shows "cos (arccos (u * 2 - 1) * 0.9) < 0"
proof -
  have "arccos (- (1 / 2)) \<le> arccos (u * 2 - 1)"
    using assms by (subst arccos_le_mono) simp_all
  then have lo: "2 * pi / 3 \<le> arccos (u * 2 - 1)"
    by (simp add: arccos_half_neg)
  have hi: "arccos (u * 2 - 1) \<le> pi"
    using assms by (intro arccos_ubound) simp_all
  have "pi / 2 < arccos (u * 2 - 1) * 0.9"
    using lo pi_gt_zero by linarith
  moreover have "arccos (u * 2 - 1) * 0.9 < 3 * pi / 2"
    using hi pi_gt_zero by linarith
  ultimately show ?thesis by (rule cos_neg_between)
qed

lemma mount_data_ok: "data_ok (mount origin rnd)"
  by (simp add: mount_def data_ok_def)

lemma TOTAL_PARTICLES_eq: "TOTAL_PARTICLES = 1000"
  by (simp add: TOTAL_PARTICLES_def FIREWORK_COUNT_def PARTICLES_PER_FIREWORK_def)

lemma TOTAL_PARTICLES_pos: "0 < TOTAL_PARTICLES"
  by (simp add: TOTAL_PARTICLES_def FIREWORK_COUNT_def PARTICLES_PER_FIREWORK_def)

text \<open>
  Claim C10. The upward bias of the direction drawn by \<^verbatim>\<open>resetParticle\<close> is not strict.
  For a draw \<open>u\<close> in \<open>[0, 1)\<close> the polar angle \<open>phi = acos(2u - 1) * 0.9\<close> lies in
  \<open>[0, 0.9 * pi]\<close> and the vertical velocity stored is \<open>cos(phi) * (speed * 1.2)\<close>; for
  every draw \<open>u \<le> 1/4\<close> the cosine is negative and so is the vertical velocity.
\<close>

theorem reset_velocity_can_point_down:
  assumes "index < TOTAL_PARTICLES" "data_ok s"
    and "0 \<le> rand s (drawn s + 4)" "rand s (drawn s + 4) < 1"
    and "0 \<le> rand s (drawn s + 5)"
  shows "(let u = rand s (drawn s + 4);
              phi = arccos (u * 2 - 1) * 0.9;
              speed = 1 + rand s (drawn s + 5) * 1.4;
              v = p_velocity (particle (resetParticle setHSL index s) index)
          in 0 \<le> phi \<and> phi \<le> 0.9 * pi \<and>
             vy v = cos phi * (speed * 1.2) \<and>
             (u \<le> 1 / 4 \<longrightarrow> cos phi < 0 \<and> vy v < 0))"
proof -
  let ?u = "rand s (drawn s + 4)"
  let ?phi = "arccos (?u * 2 - 1) * 0.9"
  let ?speed = "1 + rand s (drawn s + 5) * 1.4"
  let ?v = "p_velocity (particle (resetParticle setHSL index s) index)"
  have v: "vy ?v = cos ?phi * (?speed * 1.2)"
    using assms(1,2) by (simp add: resetParticle_particle Let_def)
  have speed: "0 < ?speed * 1.2"
    using assms(5) by simp
  have "cos ?phi * (?speed * 1.2) < 0" if "cos ?phi < 0"
    using that speed by (rule mult_neg_pos)
  then have down: "?u \<le> 1 / 4 \<longrightarrow> cos ?phi < 0 \<and> vy ?v < 0"
    unfolding v using phi_downward [of ?u] assms(3) by blast
  have range: "0 \<le> ?phi" "?phi \<le> 0.9 * pi"
    using phi_range [of ?u] assms(3,4) by blast+
  show ?thesis
    unfolding Let_def using range v down by blast
qed

theorem reset_velocity_can_point_down_witness:
  "vy (p_velocity (particle (resetParticle grey 0 (mount default_origin zero_draws)) 0)) < 0"
proof -
  let ?s = "mount default_origin zero_draws"
  have r: "rand ?s (drawn ?s + 4) = 0" "rand ?s (drawn ?s + 5) = 0"
    by (simp_all add: mount_def zero_draws_def)
  from reset_velocity_can_point_down [of 0 ?s grey]
  show ?thesis
    unfolding r Let_def using TOTAL_PARTICLES_pos mount_data_ok [of default_origin zero_draws]
    by simp
qed

lemma cos_steep: "cos (pi * 9 / 10) \<le> - (17 / 20)"
proof -
  have "(17 / 10)\<^sup>2 \<le> (3::real)"
    by (simp add: power2_eq_square)
  then have "17 / 10 \<le> sqrt 3"
    by (rule real_le_rsqrt)
  moreover have "cos (pi / 6) \<le> cos (pi / 10)"
    by (intro cos_monotone_0_pi_le) simp_all
  ultimately have "17 / 20 \<le> cos (pi / 10)"
    by (simp add: cos_30)
  moreover have "cos (pi * 9 / 10) = - cos (pi / 10)"
    using cos_pi_minus [of "pi / 10"] by (simp add: algebra_simps)
  ultimately show ?thesis by simp
qed

text \<open>
  Claim C4, amended. After \<^verbatim>\<open>resetParticle(index)\<close> with a valid index and draws in
  \<open>[0, 1)\<close>: the origin is the anchor plus the drawn offset, the position equals that
  origin and the colour is black. The lifetime is \<open>1.6 + r * 1.3\<close> rounded to single
  precision; it is at least 1.6 and at most the single-precision number nearest 2.9,
  which is \<open>12163482 / 2 ^ 22 = 2.9000000953674316\<close>. The speed drawn is a scalar in
  \<open>[1, 2.4)\<close>; the velocity stored is the drawn direction scaled by it, and by 1.2 times
  it vertically. The age is \<open>- r * 1.2\<close> rounded to single precision; it lies between
  minus the single-precision number nearest 1.2, which is
  \<open>10066330 / 2 ^ 23 = 1.2000000476837158\<close>, and 0, and it is 0 where the draw is 0.
\<close>

theorem resetParticle_post:
  assumes "index < TOTAL_PARTICLES" "data_ok s"
    and "\<forall>n. 0 \<le> rand s n \<and> rand s n < 1"
  shows "(let r = (\<lambda>k. rand s (drawn s + k));
              p = particle (resetParticle setHSL index s) index;
              theta = r 3 * pi * 2;
              phi = arccos (r 4 * 2 - 1) * 0.9;
              speed = 1 + r 5 * 1.4
          in p_origin p = vadd (baseOrigin s)
                 (Vector3 ((r 0 - 0.5) * 1000) (r 1 * 200) ((r 2 - 0.5) * 1000)) \<and>
             p_position p = p_origin p \<and>
             p_color p = Color 0 0 0 \<and>
             p_lifetime p = fround (1.6 + r 8 * 1.3) \<and>
             1.6 \<le> p_lifetime p \<and> p_lifetime p \<le> fround 2.9 \<and>
             fround 2.9 = 12163482 / 2 ^ 22 \<and>
             1 \<le> speed \<and> speed < 2.4 \<and>
             p_velocity p = Vector3 (sin phi * cos theta * speed) (cos phi * (speed * 1.2))
                 (sin phi * sin theta * speed) \<and>
             p_age p = fround (- r 9 * 1.2) \<and>
             - fround 1.2 \<le> p_age p \<and> p_age p \<le> 0 \<and>
             fround 1.2 = 10066330 / 2 ^ 23 \<and>
             (r 9 = 0 \<longrightarrow> p_age p = 0))"
proof -
  let ?r = "\<lambda>k. rand s (drawn s + k)"
  let ?p = "particle (resetParticle setHSL index s) index"
  let ?theta = "?r 3 * pi * 2"
  let ?phi = "arccos (?r 4 * 2 - 1) * 0.9"
  let ?speed = "1 + ?r 5 * 1.4"
  note p = resetParticle_particle [OF assms(1,2), of setHSL, unfolded Let_def]
  have r: "0 \<le> ?r k" "?r k < 1" for k
    using assms(3) by simp_all
  have org: "p_origin ?p = vadd (baseOrigin s)
      (Vector3 ((?r 0 - 0.5) * 1000) (?r 1 * 200) ((?r 2 - 0.5) * 1000))"
    unfolding p by simp
  have pos: "p_position ?p = p_origin ?p"
    unfolding p by simp
  have col: "p_color ?p = Color 0 0 0"
    unfolding p by simp
  have life: "p_lifetime ?p = fround (1.6 + ?r 8 * 1.3)"
    unfolding p by simp
  have life_range: "1.6 \<le> p_lifetime ?p" "p_lifetime ?p \<le> fround 2.9"
    unfolding life using r [of 8] by (rule lifetime_store_range)+
  have top: "fround 2.9 = 12163482 / 2 ^ 22"
    using fround_2_9 by simp
  have speed: "1 \<le> ?speed" "?speed < 2.4"
    using r [of 5] by simp_all
  have vel: "p_velocity ?p = Vector3 (sin ?phi * cos ?theta * ?speed) (cos ?phi * (?speed * 1.2))
      (sin ?phi * sin ?theta * ?speed)"
    unfolding p by simp
  have age: "p_age ?p = fround (- ?r 9 * 1.2)"
    unfolding p by simp
  have age_range: "- fround 1.2 \<le> p_age ?p" "p_age ?p \<le> 0"
    unfolding age using r [of 9] by (rule age_store_range)+
  have bottom: "fround 1.2 = 10066330 / 2 ^ 23"
    using fround_1_2 by simp
  have age_zero: "?r 9 = 0 \<longrightarrow> p_age ?p = 0"
    unfolding age by simp
  show ?thesis
    unfolding Let_def
    using org pos col life life_range top speed vel age age_range bottom age_zero by blast
qed

theorem resetParticle_post_witness:
  "p_position (particle (resetParticle grey 0 (mount default_origin zero_draws)) 0)
     = Vector3 (- 500) 5 (- 514) \<and>
   p_color (particle (resetParticle grey 0 (mount default_origin zero_draws)) 0) = Color 0 0 0 \<and>
   p_lifetime (particle (resetParticle grey 0 (mount default_origin zero_draws)) 0)
     = 13421773 / 2 ^ 23 \<and>
   p_age (particle (resetParticle grey 0 (mount default_origin zero_draws)) 0) = 0"
proof -
  let ?s = "mount default_origin zero_draws"
  have r: "rand ?s = zero_draws" "baseOrigin ?s = default_origin"
    by (simp_all add: mount_def)
  have "\<forall>n. 0 \<le> rand ?s n \<and> rand ?s n < 1"
    by (simp add: r zero_draws_def)
  from resetParticle_post [OF TOTAL_PARTICLES_pos mount_data_ok this, of grey]
  show ?thesis
    unfolding r Let_def
    by (simp add: zero_draws_def default_origin_def vadd_def fround_1_6)
qed

text \<open>
  Claim C4 as stated fails in three places. With the draws of \<open>steep_draws\<close>, all in
  \<open>[0, 1)\<close>, the new age is 0 and so not negative; the new lifetime is the
  single-precision number nearest 2.9, which is not below 2.9; and the vertical
  component of the new velocity alone is below \<open>-2.4\<close>, so that the magnitude of the
  velocity is above 2.4.
\<close>

theorem reset_outside_claimed_ranges:
  "(let p = particle (resetParticle grey 0 (mount default_origin steep_draws)) 0;
        v = p_velocity p
    in p_age p = 0 \<and> \<not> p_age p < 0 \<and>
       p_lifetime p = 12163482 / 2 ^ 22 \<and> \<not> p_lifetime p < 2.9 \<and>
       vy v < - 2.4 \<and> 2.4\<^sup>2 < (vx v)\<^sup>2 + (vy v)\<^sup>2 + (vz v)\<^sup>2)"
proof -
  let ?s = "mount default_origin steep_draws"
  let ?p = "particle (resetParticle grey 0 ?s) 0"
  let ?v = "p_velocity ?p"
  note p = resetParticle_particle [OF TOTAL_PARTICLES_pos mount_data_ok,
    of grey default_origin steep_draws, unfolded Let_def]
  have s: "rand ?s = steep_draws" "drawn ?s = 0"
    by (simp_all add: mount_def)
  have age: "p_age ?p = 0"
    unfolding p by (simp add: s steep_draws_def)
  have life: "p_lifetime ?p = 12163482 / 2 ^ 22"
    unfolding p using fround_near_2_9 by (simp add: s steep_draws_def)
  have "vy ?v = cos (pi * 9 / 10) * ((1 + (1 - 1 / 2 ^ 30) * (7 / 5)) * (6 / 5))"
    unfolding p by (simp add: s steep_draws_def)
  moreover have "cos (pi * 9 / 10) * ((1 + (1 - 1 / 2 ^ 30) * (7 / 5)) * (6 / 5))
      \<le> - (17 / 20) * ((1 + (1 - 1 / 2 ^ 30) * (7 / 5)) * (6 / 5))"
    using cos_steep by (intro mult_right_mono) simp_all
  ultimately have down: "vy ?v < - 2.4"
    by simp
  then have "(12 / 5)\<^sup>2 < (- vy ?v)\<^sup>2"
    by (intro power_strict_mono) simp_all
  moreover have sq: "(12 / 5 :: real)\<^sup>2 = 144 / 25"
    by (simp add: power2_eq_square)
  ultimately have "144 / 25 < (vy ?v)\<^sup>2"
    by simp
  then have "144 / 25 < (vx ?v)\<^sup>2 + (vy ?v)\<^sup>2 + (vz ?v)\<^sup>2"
    using zero_le_power2 [of "vx ?v"] zero_le_power2 [of "vz ?v"] by linarith
  then have norm: "2.4\<^sup>2 < (vx ?v)\<^sup>2 + (vy ?v)\<^sup>2 + (vz ?v)\<^sup>2"
    using sq by simp
  have "\<not> p_age ?p < 0" "\<not> p_lifetime ?p < 2.9"
    unfolding age life by simp_all
  then show ?thesis
    unfolding Let_def using age life down norm by blast
qed

subsection \<open>One frame, per particle\<close>

lemma particle_drawn_update [simp]: "particle (s\<lparr>drawn := n\<rparr>) k = particle s k"
  by (simp add: particle_def)

lemma data_ok_drawn_update [simp]: "data_ok (s\<lparr>drawn := n\<rparr>) = data_ok s"
  by (simp add: data_ok_def)

lemma particle_age: "p_age (particle s k) = ages s ! k"
  and particle_lifetime: "p_lifetime (particle s k) = lifetimes s ! k"
  and particle_position_y: "vy (p_position (particle s k)) = positions s ! (k * 3 + 1)"
  by (simp_all add: particle_def vec_at_def)

lemma recycles_particle:
  "recycles d s k \<longleftrightarrow>
     \<not> p_age (particle s k) + d < 0 \<and>
     (p_lifetime (particle s k) < p_age (particle s k) + d
      \<or> vy (p_position (particle s k)) < vy (baseOrigin s) - 1.5)"
  by (simp add: recycles_def particle_def vec_at_def)

lemma advance_held:
  assumes "attached s" "data_ok s" "k < TOTAL_PARTICLES" "ages s ! k + d < 0"
  shows "particle (advance h d True s) k
      = (particle s k)\<lparr>p_position := p_origin (particle s k),
                        p_color := Color 0 0 0,
                        p_age := ages s ! k + d\<rparr>"
proof -
  obtain n where "particle (advance h d True s) k
      = particle (advance_particle h d k (s\<lparr>drawn := n\<rparr>)) k"
    using advance_active_particle [OF assms(1-3)] by blast
  then show ?thesis
    using advance_particle_hold [of k "s\<lparr>drawn := n\<rparr>" d h] assms(2-4) by simp
qed

lemma advance_recycled:
  assumes "attached s" "data_ok s" "k < TOTAL_PARTICLES" "\<not> ages s ! k + d < 0"
    and "lifetimes s ! k < ages s ! k + d \<or> positions s ! (k * 3 + 1) < vy (baseOrigin s) - 1.5"
  shows "\<exists>n\<ge>drawn s. particle (advance h d True s) k
      = particle (resetParticle h k (s\<lparr>drawn := n\<rparr>)) k"
proof -
  obtain n where n: "drawn s \<le> n" and "particle (advance h d True s) k
      = particle (advance_particle h d k (s\<lparr>drawn := n\<rparr>)) k"
    using advance_active_particle [OF assms(1-3)] by blast
  then have "particle (advance h d True s) k = particle (resetParticle h k (s\<lparr>drawn := n\<rparr>)) k"
    using advance_particle_recycle [of k "s\<lparr>drawn := n\<rparr>" d h] assms(2-5) by simp
  with n show ?thesis by blast
qed

lemma advance_kept:
  assumes "attached s" "data_ok s" "k < TOTAL_PARTICLES" "\<not> ages s ! k + d < 0"
    and "\<not> lifetimes s ! k < ages s ! k + d"
    and "\<not> positions s ! (k * 3 + 1) < vy (baseOrigin s) - 1.5"
  shows "particle (advance h d True s) k
      = (let p = particle s k; age = p_age p + d
         in p\<lparr>p_position := Vector3
                 (vx (p_origin p) + vx (p_velocity p) * age)
                 (vy (p_origin p) + vy (p_velocity p) * age + 0.5 * GRAVITY * age * age)
                 (vz (p_origin p) + vz (p_velocity p) * age),
               p_color := Color
                 (red (p_baseColor p) * max 0 (1 - age / p_lifetime p))
                 (green (p_baseColor p) * max 0 (1 - age / p_lifetime p))
                 (blue (p_baseColor p) * max 0 (1 - age / p_lifetime p)),
               p_age := age\<rparr>)"
proof -
  obtain n where "particle (advance h d True s) k
      = particle (advance_particle h d k (s\<lparr>drawn := n\<rparr>)) k"
    using advance_active_particle [OF assms(1-3)] by blast
  then show ?thesis
    using advance_particle_integrate [of k "s\<lparr>drawn := n\<rparr>" d h] assms(2-6) by simp
qed

lemma advance_data_ok: "data_ok s \<Longrightarrow> data_ok (advance h d a s)"
proof -
  assume ok: "data_ok s"
  have "data_ok (advance_from h d 0 (s\<lparr>opacity := x\<rparr>))" for x
    using ok by (intro advance_from_data_ok) (simp add: data_ok_def)
  then have "data_ok (advance_from h d 0 (s\<lparr>opacity := x\<rparr>)
      \<lparr>positionNeedsUpdate := True, colorNeedsUpdate := True\<rparr>)" for x
    by (simp add: data_ok_def)
  with ok show ?thesis
    by (simp add: advance_def Let_def) (simp add: data_ok_def)
qed

lemma advance_frame:
  "baseOrigin (advance h d a s) = baseOrigin s"
  "rand (advance h d a s) = rand s"
  "attached (advance h d a s) = attached s"
  by (simp_all add: advance_def Let_def advance_from_frame)

lemma advance_passive_particle:
  "\<not> (attached s \<and> a) \<Longrightarrow> particle (advance h d a s) k = particle s k"
  by (auto simp add: advance_def particle_def)

lemma initialize_data_ok: "data_ok s \<Longrightarrow> data_ok (initialize h s)"
  by (simp add: initialize_def initialize_from_data_ok)

lemma initialize_frame:
  "baseOrigin (initialize h s) = baseOrigin s"
  "rand (initialize h s) = rand s"
  "attached (initialize h s) = attached s"
  "opacity (initialize h s) = opacity s"
  "drawn (initialize h s) = drawn s + 10 * TOTAL_PARTICLES"
  using initialize_from_frame [of h 0 s] by (simp_all add: initialize_def)

lemma launched_state:
  "data_ok launched" "attached launched" "baseOrigin launched = default_origin"
  "rand launched = zero_draws" "opacity launched = 0"
  by (simp_all add: launched_def initialize_data_ok mount_data_ok initialize_frame)
     (simp_all add: mount_def)

lemma launched_particle:
  assumes "k < TOTAL_PARTICLES"
  shows "p_age (particle launched k) = 0"
    and "p_lifetime (particle launched k) = 13421773 / 2 ^ 23"
    and "p_position (particle launched k) = Vector3 (- 500) 5 (- 514)"
    and "p_origin (particle launched k) = Vector3 (- 500) 5 (- 514)"
    and "vy (p_velocity (particle launched k)) = cos (arccos (0 * 2 - 1) * 0.9) * 1.2"
proof -
  let ?m = "mount default_origin zero_draws"
  have m: "rand ?m = zero_draws" "baseOrigin ?m = default_origin"
    by (simp_all add: mount_def)
  have "particle launched k = particle (resetParticle grey k (?m\<lparr>drawn := drawn ?m + 10 * k\<rparr>)) k"
    unfolding launched_def using assms by (intro initialize_particle mount_data_ok)
  note p = this [unfolded resetParticle_particle [of k "?m\<lparr>drawn := drawn ?m + 10 * k\<rparr>" grey,
    OF assms, simplified mount_data_ok data_ok_drawn_update, OF TrueI, unfolded Let_def]]
  show "p_age (particle launched k) = 0"
    and "p_lifetime (particle launched k) = 13421773 / 2 ^ 23"
    and "p_position (particle launched k) = Vector3 (- 500) 5 (- 514)"
    and "p_origin (particle launched k) = Vector3 (- 500) 5 (- 514)"
    and "vy (p_velocity (particle launched k)) = cos (arccos (0 * 2 - 1) * 0.9) * 1.2"
    unfolding p by (simp_all add: m zero_draws_def vadd_def fround_1_6)
      (simp_all add: default_origin_def)
qed

lemma launched_vy_negative:
  "k < TOTAL_PARTICLES \<Longrightarrow> vy (p_velocity (particle launched k)) < 0"
  using phi_downward [of 0] by (simp add: launched_particle)

text \<open>
  Claim C3. After a frame with \<^verbatim>\<open>isActive\<close> true, every particle whose age is negative
  has the colour black and its position at its origin. A particle whose age is still
  negative once the delta is added does not meet the recycling test and is not reset by
  that frame: it keeps its origin, velocity, base colour and lifetime, and its age is the
  old age plus the delta.
\<close>

theorem advance_delayed_particle:
  assumes "attached s" "data_ok s" "k < TOTAL_PARTICLES"
  shows "(let p = particle s k; p' = particle (advance setHSL delta True s) k
          in (p_age p' < 0 \<longrightarrow> p_color p' = Color 0 0 0 \<and> p_position p' = p_origin p') \<and>
             (p_age p + delta < 0 \<longrightarrow>
                \<not> recycles delta s k \<and>
                p' = p\<lparr>p_position := p_origin p, p_color := Color 0 0 0,
                       p_age := p_age p + delta\<rparr>))"
proof -
  let ?p = "particle s k"
  let ?p' = "particle (advance setHSL delta True s) k"
  have held: "\<not> recycles delta s k \<and>
      ?p' = ?p\<lparr>p_position := p_origin ?p, p_color := Color 0 0 0, p_age := p_age ?p + delta\<rparr>"
    if "p_age ?p + delta < 0"
    using that advance_held [OF assms, of delta setHSL]
    by (simp add: particle_age recycles_def)
  have dark: "p_color ?p' = Color 0 0 0 \<and> p_position ?p' = p_origin ?p'" if neg: "p_age ?p' < 0"
  proof (cases "ages s ! k + delta < 0")
    case True
    then show ?thesis
      using advance_held [OF assms, of delta setHSL] by simp
  next
    case False
    show ?thesis
    proof (cases "lifetimes s ! k < ages s ! k + delta
        \<or> positions s ! (k * 3 + 1) < vy (baseOrigin s) - 1.5")
      case True
      then obtain n where "?p' = particle (resetParticle setHSL k (s\<lparr>drawn := n\<rparr>)) k"
        using advance_recycled [OF assms False, of setHSL] by blast
      then show ?thesis
        using assms(2,3) by (simp add: resetParticle_particle Let_def)
    next
      case False2: False
      then have "p_age ?p' = ages s ! k + delta"
        using advance_kept [OF assms False, of setHSL] by (simp add: Let_def particle_age)
      with neg False show ?thesis by simp
    qed
  qed
  show ?thesis
    unfolding Let_def using held dark by blast
qed

theorem advance_delayed_particle_witness:
  "p_age (particle delayed_example 0) = - (3 / 4) \<and>
   p_age (particle (advance grey (1 / 10) True delayed_example) 0) = - (13 / 20) \<and>
   p_color (particle (advance grey (1 / 10) True delayed_example) 0) = Color 0 0 0 \<and>
   p_position (particle (advance grey (1 / 10) True delayed_example) 0)
     = p_origin (particle delayed_example 0)"
proof -
  let ?s = delayed_example
  let ?p' = "particle (advance grey (1 / 10) True ?s) 0"
  have s: "attached ?s" "data_ok ?s"
    by (simp_all add: delayed_example_def resetParticle_frame resetParticle_data_ok mount_data_ok)
       (simp add: mount_def)
  have age: "p_age (particle ?s 0) = - (3 / 4)"
    unfolding delayed_example_def
    using TOTAL_PARTICLES_pos mount_data_ok [of default_origin even_draws]
    by (simp add: resetParticle_particle Let_def mount_def even_draws_def fround_minus
        fround_0_75)
  then have "p_age (particle ?s 0) + 1 / 10 < 0"
    by simp
  with advance_delayed_particle [OF s TOTAL_PARTICLES_pos, of grey "1 / 10"]
  have "?p' = (particle ?s 0)\<lparr>p_position := p_origin (particle ?s 0),
      p_color := Color 0 0 0, p_age := p_age (particle ?s 0) + 1 / 10\<rparr>"
    unfolding Let_def by blast
  then show ?thesis
    using age by simp
qed

text \<open>
  Claim C2. A particle whose age, once the delta is added, lies in \<open>[0, lifetime]\<close> and
  whose stored height is not below the floor is not recycled by a frame with
  \<^verbatim>\<open>isActive\<close> true; the frame keeps its origin, velocity, base colour and lifetime and
  stores the position \<open>origin + velocity * age\<close> horizontally and
  \<open>origin.y + velocity.y * age + 0.5 * GRAVITY * age * age\<close> vertically, with
  \<open>GRAVITY = -4\<close>, and the colour \<open>baseColor * max(0, 1 - age / lifetime)\<close>. In the
  example of the specification the height at age 1 is 10.
\<close>

theorem advance_kinematics:
  assumes "attached s" "data_ok s" "k < TOTAL_PARTICLES"
    and "0 \<le> p_age (particle s k) + delta"
    and "p_age (particle s k) + delta \<le> p_lifetime (particle s k)"
    and "\<not> vy (p_position (particle s k)) < vy (baseOrigin s) - 1.5"
  shows "(let p = particle s k; p' = particle (advance setHSL delta True s) k;
              age = p_age p'; fade = max 0 (1 - age / p_lifetime p')
          in age = p_age p + delta \<and>
             p_origin p' = p_origin p \<and> p_velocity p' = p_velocity p \<and>
             p_baseColor p' = p_baseColor p \<and> p_lifetime p' = p_lifetime p \<and>
             GRAVITY = - 4 \<and>
             p_position p' = Vector3
               (vx (p_origin p') + vx (p_velocity p') * age)
               (vy (p_origin p') + vy (p_velocity p') * age + 0.5 * GRAVITY * age * age)
               (vz (p_origin p') + vz (p_velocity p') * age) \<and>
             p_color p' = Color (red (p_baseColor p') * fade) (green (p_baseColor p') * fade)
               (blue (p_baseColor p') * fade))"
proof -
  have "\<not> ages s ! k + delta < 0" "\<not> lifetimes s ! k < ages s ! k + delta"
    "\<not> positions s ! (k * 3 + 1) < vy (baseOrigin s) - 1.5"
    using assms(4-6) by (simp_all add: particle_age particle_lifetime particle_position_y)
  note kept = advance_kept [OF assms(1-3) this, of setHSL, unfolded Let_def]
  show ?thesis
    unfolding Let_def kept by (simp add: GRAVITY_def)
qed

theorem advance_kinematics_witness:
  "p_age (particle (advance grey 1 True kinematic_example) 0) = 1 \<and>
   p_position (particle (advance grey 1 True kinematic_example) 0) = Vector3 0 10 0 \<and>
   p_color (particle (advance grey 1 True kinematic_example) 0) = Color (1 / 2) 0 0"
proof -
  let ?s = kinematic_example
  have s: "attached ?s" "data_ok ?s" "baseOrigin ?s = default_origin"
    by (simp_all add: kinematic_example_def Let_def mount_def data_ok_def)
  have p: "particle ?s 0 = \<lparr>p_position = Vector3 0 10 0, p_velocity = Vector3 0 2 0,
      p_origin = Vector3 0 10 0, p_baseColor = Color 1 0 0, p_color = Color 0 0 0,
      p_age = 0, p_lifetime = 2\<rparr>"
    by (simp add: kinematic_example_def Let_def mount_def particle_def vec_at_def col_at_def
        TOTAL_PARTICLES_def FIREWORK_COUNT_def PARTICLES_PER_FIREWORK_def)
  have "0 \<le> p_age (particle ?s 0) + 1" "p_age (particle ?s 0) + 1 \<le> p_lifetime (particle ?s 0)"
    "\<not> vy (p_position (particle ?s 0)) < vy (baseOrigin ?s) - 1.5"
    unfolding p s by (simp_all add: default_origin_def)
  from advance_kinematics [OF s(1,2) TOTAL_PARTICLES_pos this, of grey]
  show ?thesis
    unfolding Let_def p by (simp add: GRAVITY_def)
qed




subsection \<open>A negative delta\<close>

lemma finite32_small: "\<bar>x\<bar> \<le> 2 ^ 103 \<Longrightarrow> finite32 x"
  by (simp add: finite32_def)

lemma finite32_scaled:
  assumes "finite32 x" "0 \<le> f" "f \<le> 1"
  shows "finite32 (x * f)"
proof -
  have "\<bar>x * f\<bar> = \<bar>x\<bar> * f"
    using assms(2) by (simp add: abs_mult)
  also have "\<dots> \<le> \<bar>x\<bar> * 1"
    using assms(3) by (intro mult_left_mono) simp_all
  finally show ?thesis
    using assms(1) by (simp add: finite32_def)
qed

lemma fade_range:
  assumes "0 \<le> a" "0 < l"
  shows "0 \<le> max 0 (1 - a / l)" "max 0 (1 - a / l) \<le> (1::real)"
  using assms by simp_all

lemma integrated_small:
  fixes a :: real
  assumes "\<bar>x\<bar> \<le> 2 ^ 100" "\<bar>v\<bar> \<le> 2 ^ 100" "0 \<le> a" "a \<le> 3" "\<bar>g\<bar> \<le> 18"
  shows "\<bar>x + v * a + g\<bar> \<le> 2 ^ 103"
proof -
  have "\<bar>v * a\<bar> = \<bar>v\<bar> * a"
    using assms(3) by (simp add: abs_mult)
  also have "\<dots> \<le> 2 ^ 100 * 3"
    using assms(2-4) by (intro mult_mono) simp_all
  finally have "\<bar>v * a\<bar> \<le> 2 ^ 100 * 3" .
  then have "\<bar>x + v * a + g\<bar> \<le> 2 ^ 100 + 2 ^ 100 * 3 + 18"
    using assms(1,5) by linarith
  then show ?thesis by simp
qed

lemma gravity_small:
  fixes a :: real
  assumes "0 \<le> a" "a \<le> 3"
  shows "\<bar>0.5 * GRAVITY * a * a\<bar> \<le> 18"
proof -
  have "a * a \<le> 3 * 3"
    using assms by (intro mult_mono) simp_all
  then show ?thesis
    using assms(1) by (simp add: GRAVITY_def abs_mult)
qed

lemma fresh_finite:
  assumes "k < TOTAL_PARTICLES" "data_ok s" "\<forall>n. 0 \<le> rand s n \<and> rand s n < 1"
    and "bounded_by (2 ^ 100) (baseOrigin s)"
  shows "finite_vec (p_position (particle (resetParticle h k s) k))"
    and "p_color (particle (resetParticle h k s) k) = Color 0 0 0"
    and "finite32 (p_age (particle (resetParticle h k s) k))"
proof -
  let ?r = "\<lambda>j. rand s (drawn s + j)"
  note p = resetParticle_particle [OF assms(1,2), of h, unfolded Let_def]
  have r: "0 \<le> ?r j" "?r j < 1" for j
    using assms(3) by simp_all
  have a: "\<bar>vx (baseOrigin s)\<bar> \<le> 2 ^ 100" "\<bar>vy (baseOrigin s)\<bar> \<le> 2 ^ 100"
    "\<bar>vz (baseOrigin s)\<bar> \<le> 2 ^ 100"
    using assms(4) by (simp_all add: bounded_by_def)
  have "\<bar>vx (baseOrigin s) + (?r 0 - 0.5) * 1000\<bar> \<le> 2 ^ 103"
    using a(1) r [of 0] by (intro order_trans [OF abs_triangle_ineq]) simp
  moreover have "\<bar>vy (baseOrigin s) + ?r 1 * 200\<bar> \<le> 2 ^ 103"
    using a(2) r [of 1] by (intro order_trans [OF abs_triangle_ineq]) simp
  moreover have "\<bar>vz (baseOrigin s) + (?r 2 - 0.5) * 1000\<bar> \<le> 2 ^ 103"
    using a(3) r [of 2] by (intro order_trans [OF abs_triangle_ineq]) simp
  ultimately show "finite_vec (p_position (particle (resetParticle h k s) k))"
    unfolding p by (simp add: finite_vec_def vadd_def finite32_small)
  show "p_color (particle (resetParticle h k s) k) = Color 0 0 0"
    unfolding p by simp
  have "- fround 1.2 \<le> fround (- ?r 9 * 1.2)" "fround (- ?r 9 * 1.2) \<le> 0"
    using r [of 9] by (rule age_store_range)+
  then have "\<bar>fround (- ?r 9 * 1.2)\<bar> \<le> 2 ^ 103"
    using fround_1_2 by simp
  then show "finite32 (p_age (particle (resetParticle h k s) k))"
    unfolding p by (simp add: finite32_small)
qed


lemma fresh_velocity_bounded:
  assumes "k < TOTAL_PARTICLES" "data_ok s" "\<forall>n. 0 \<le> rand s n \<and> rand s n < 1"
  shows "bounded_by 3 (p_velocity (particle (resetParticle h k s) k))"
proof -
  let ?r = "\<lambda>j. rand s (drawn s + j)"
  let ?speed = "1 + ?r 5 * 1.4"
  note p = resetParticle_particle [OF assms(1,2), of h, unfolded Let_def]
  have speed: "0 \<le> ?speed" "?speed \<le> 2.4" "?speed * 1.2 \<le> 3" "0 \<le> ?speed * 1.2"
    using assms(3) [rule_format, of "drawn s + 5"] by simp_all
  have unit: "\<bar>a * b\<bar> \<le> 1" if "\<bar>a\<bar> \<le> 1" "\<bar>b\<bar> \<le> 1" for a b :: real
    using that mult_mono [of "\<bar>a\<bar>" 1 "\<bar>b\<bar>" 1] by (simp add: abs_mult)
  have scale: "\<bar>a * c\<bar> \<le> 3" if "\<bar>a\<bar> \<le> 1" "0 \<le> c" "c \<le> 3" for a c :: real
    using that mult_mono [of "\<bar>a\<bar>" 1 c 3] by (simp add: abs_mult)
  have "\<bar>sin x * cos y * ?speed\<bar> \<le> 3" "\<bar>cos x * (?speed * 1.2)\<bar> \<le> 3"
    "\<bar>sin x * sin y * ?speed\<bar> \<le> 3" for x y :: real
    using speed by (intro scale unit; simp)+
  then show ?thesis
    unfolding p by (simp add: bounded_by_def)
qed

lemma launched_tame:
  assumes "k < TOTAL_PARTICLES"
  shows "bounded_by (2 ^ 100) (p_origin (particle launched k))"
    and "bounded_by (2 ^ 100) (p_velocity (particle launched k))"
    and "finite_col (p_baseColor (particle launched k))"
proof -
  let ?m = "mount default_origin zero_draws"
  let ?t = "?m\<lparr>drawn := drawn ?m + 10 * k\<rparr>"
  have eq: "particle launched k = particle (resetParticle grey k ?t) k"
    unfolding launched_def using assms by (intro initialize_particle mount_data_ok)
  have t: "data_ok ?t" "\<forall>n. 0 \<le> rand ?t n \<and> rand ?t n < 1"
    by (simp_all add: mount_data_ok) (simp add: mount_def zero_draws_def)
  show "bounded_by (2 ^ 100) (p_origin (particle launched k))"
    using assms by (simp add: launched_particle bounded_by_def)
  have "bounded_by 3 (p_velocity (particle launched k))"
    unfolding eq using assms t by (rule fresh_velocity_bounded)
  then show "bounded_by (2 ^ 100) (p_velocity (particle launched k))"
    by (simp add: bounded_by_def)
  show "finite_col (p_baseColor (particle launched k))"
    unfolding eq resetParticle_particle [OF assms t(1), unfolded Let_def]
    by (simp add: finite_col_def grey_def finite32_def)
qed



subsection \<open>Lifetimes\<close>

lemma advance_particle_lifetime:
  assumes "k < TOTAL_PARTICLES" "data_ok s"
  shows "p_lifetime (particle (advance_particle h d k s) k) = lifetimes s ! k
     \<or> p_lifetime (particle (advance_particle h d k s) k)
         = fround (1.6 + rand s (drawn s + 8) * 1.3)"
proof (cases "ages s ! k + d < 0")
  case True
  then show ?thesis
    using advance_particle_hold [OF assms, of d h] by (simp add: particle_lifetime)
next
  case False
  show ?thesis
  proof (cases "lifetimes s ! k < ages s ! k + d
      \<or> positions s ! (k * 3 + 1) < vy (baseOrigin s) - 1.5")
    case True
    then show ?thesis
      using advance_particle_recycle [OF assms False, of h] assms
      by (simp add: resetParticle_particle Let_def)
  next
    case False2: False
    then show ?thesis
      using advance_particle_integrate [OF assms False, of h]
      by (simp add: Let_def particle_lifetime)
  qed
qed

lemma advance_lifetime_range:
  assumes "data_ok s" "\<forall>n. 0 \<le> rand s n \<and> rand s n < 1" "k < TOTAL_PARTICLES"
    and "1.6 \<le> lifetimes s ! k" "lifetimes s ! k \<le> fround 2.9"
  shows "1.6 \<le> lifetimes (advance h d a s) ! k
     \<and> lifetimes (advance h d a s) ! k \<le> fround 2.9"
proof (cases "attached s \<and> a")
  case True
  then obtain n where "particle (advance h d True s) k
      = particle (advance_particle h d k (s\<lparr>drawn := n\<rparr>)) k"
    using advance_active_particle [of s k h d] assms(1,3) by blast
  then have "lifetimes (advance h d True s) ! k = lifetimes s ! k
      \<or> lifetimes (advance h d True s) ! k = fround (1.6 + rand s (n + 8) * 1.3)"
    using advance_particle_lifetime [of k "s\<lparr>drawn := n\<rparr>" h d] assms(1,3)
    by (simp add: particle_lifetime [symmetric])
  moreover have "0 \<le> rand s (n + 8)" "rand s (n + 8) < 1"
    using assms(2) by simp_all
  note lifetime_store_range [OF this]
  ultimately show ?thesis
    using True assms(4,5) by auto
next
  case False
  then have "particle (advance h d a s) k = particle s k"
    by (rule advance_passive_particle)
  then have "lifetimes (advance h d a s) ! k = lifetimes s ! k"
    by (simp add: particle_lifetime [symmetric])
  with assms(4,5) show ?thesis by simp
qed

lemma frames_lifetime_range:
  assumes "data_ok s" "\<forall>n. 0 \<le> rand s n \<and> rand s n < 1" "k < TOTAL_PARTICLES"
    and "1.6 \<le> lifetimes s ! k" "lifetimes s ! k \<le> fround 2.9"
  shows "1.6 \<le> lifetimes (frames h fs s) ! k \<and> lifetimes (frames h fs s) ! k \<le> fround 2.9"
  using assms
proof (induction h fs s rule: frames.induct)
  case (1 h s)
  then show ?case by simp
next
  case (2 h d a fs s)
  have "1.6 \<le> lifetimes (advance h d a s) ! k
      \<and> lifetimes (advance h d a s) ! k \<le> fround 2.9"
    using "2.prems" by (intro advance_lifetime_range)
  then show ?case
    using "2.IH" "2.prems"(1-3) by (simp add: advance_data_ok advance_frame)
qed

lemma initialize_lifetime:
  assumes "data_ok s" "k < TOTAL_PARTICLES"
  shows "lifetimes (initialize h s) ! k = fround (1.6 + rand s (drawn s + 10 * k + 8) * 1.3)"
proof -
  have "p_lifetime (particle (initialize h s) k)
      = p_lifetime (particle (resetParticle h k (s\<lparr>drawn := drawn s + 10 * k\<rparr>)) k)"
    using assms by (simp add: initialize_particle)
  then show ?thesis
    using assms by (simp add: resetParticle_particle Let_def particle_lifetime)
qed

text \<open>
  Claim C9. \<^verbatim>\<open>resetParticle\<close> stores the lifetime \<open>1.6 + r * 1.3\<close> for a draw \<open>r\<close>,
  rounded to single precision.
  With draws in \<open>[0, 1)\<close>, after the initialisation, which resets each of the 1000
  particles, every lifetime is at least 1.6, and
  after any sequence of frames that follows every lifetime is at least 1.6, at most the
  single-precision number nearest 2.9, and
  not zero, so that the division \<open>age / lifetime\<close> of the fade never divides by zero.
\<close>

theorem lifetime_never_zero:
  assumes "data_ok s" "\<forall>n. 0 \<le> rand s n \<and> rand s n < 1" "k < TOTAL_PARTICLES"
  shows "(let t = frames setHSL fs (initialize setHSL s)
          in TOTAL_PARTICLES = 1000 \<and>
             lifetimes (resetParticle setHSL k s) ! k
               = fround (1.6 + rand s (drawn s + 8) * 1.3) \<and>
             1.6 \<le> lifetimes (initialize setHSL s) ! k \<and>
             1.6 \<le> lifetimes t ! k \<and> lifetimes t ! k \<le> fround 2.9 \<and>
             lifetimes t ! k \<noteq> 0)"
proof -
  let ?i = "initialize setHSL s"
  have r: "0 \<le> rand s n" "rand s n < 1" for n
    using assms(2) by simp_all
  have reset: "lifetimes (resetParticle setHSL k s) ! k
      = fround (1.6 + rand s (drawn s + 8) * 1.3)"
    using resetParticle_particle [OF assms(3,1), of setHSL]
    by (simp add: Let_def particle_lifetime [symmetric])
  have init: "1.6 \<le> lifetimes ?i ! k" "lifetimes ?i ! k \<le> fround 2.9"
    unfolding initialize_lifetime [OF assms(1,3)]
    using r [of "drawn s + 10 * k + 8"] by (rule lifetime_store_range)+
  have "1.6 \<le> lifetimes (frames setHSL fs ?i) ! k
      \<and> lifetimes (frames setHSL fs ?i) ! k \<le> fround 2.9"
    using assms init by (intro frames_lifetime_range) (simp_all add: initialize_data_ok initialize_frame)
  then show ?thesis
    unfolding Let_def using reset init(1) TOTAL_PARTICLES_eq by auto
qed

theorem lifetime_never_zero_witness:
  "lifetimes (resetParticle grey 0 (mount default_origin zero_draws)) ! 0 = 13421773 / 2 ^ 23 \<and>
   1.6 \<le> lifetimes (frames grey [(1, True), (1, True)] launched) ! 0 \<and>
   lifetimes (frames grey [(1, True), (1, True)] launched) ! 0 \<noteq> 0"
proof -
  let ?m = "mount default_origin zero_draws"
  have "\<forall>n. 0 \<le> rand ?m n \<and> rand ?m n < 1"
    by (simp add: mount_def zero_draws_def)
  from lifetime_never_zero [OF mount_data_ok this TOTAL_PARTICLES_pos, of grey "[(1, True), (1, True)]"]
  have "lifetimes (resetParticle grey 0 ?m) ! 0 = fround (1.6 + rand ?m (drawn ?m + 8) * 1.3)"
    and "1.6 \<le> lifetimes (frames grey [(1, True), (1, True)] (initialize grey ?m)) ! 0"
    and "lifetimes (frames grey [(1, True), (1, True)] (initialize grey ?m)) ! 0 \<noteq> 0"
    unfolding Let_def by blast+
  then show ?thesis
    unfolding launched_def by (simp add: mount_def zero_draws_def fround_1_6)
qed

end
